theory Spec2Isabelle
  imports Complex_Main "HOL-Library.Log_Nat"
begin

section \<open>Chain-query client of mesh-dash: \<^verbatim>\<open>substrate/chain_functions.py\<close>\<close>

text \<open>
  The development follows \<^verbatim>\<open>src/substrate/chain_functions.py\<close>. Values fetched from
  the node are parameters of the functions that use them: \<^verbatim>\<open>get_epoch_data\<close> takes the
  two integers that \<^verbatim>\<open>int(str(self.get_block_number()))\<close> and
  \<^verbatim>\<open>int(str(self.get_epoch_length()))\<close> produce. The constant \<^verbatim>\<open>BLOCK_SECS\<close> comes
  from \<^verbatim>\<open>substrate.config\<close>, which is not part of the sources, so it is a parameter
  too. Python integers are unbounded: \<^typ>\<open>int\<close>. Python's \<^verbatim>\<open>//\<close> and \<^verbatim>\<open>%\<close> round
  towards minus infinity, as \<open>div\<close> and \<open>mod\<close> on \<^typ>\<open>int\<close> do; division by zero raises
  and is a branch of its own. A Python \<^verbatim>\<open>float\<close> is an IEEE 754 double: every
  operation on floats rounds its exact result to the nearest double.
\<close>

subsection \<open>Exceptions\<close>

datatype py_exception =
    SubstrateRequestException
  | ConnectionError
  | AttributeError
  | WebSocketConnectionClosedException
  | WebSocketProtocolException
  | TypeError
  | ValueError
  | KeyError
  | ZeroDivisionError
  | OverflowError
  | RetryError py_exception

type_synonym 'a result = "py_exception + 'a"

subsection \<open>Python floats\<close>

text \<open>
  A double is a rational number, an infinity or a NaN. The finite doubles are the
  numbers \<open>m * 2^p\<close> with \<open>\<bar>m\<bar> < 2^53\<close> and \<open>- 1074 \<le> p \<le> 971\<close>. The sign of a zero
  is not modelled: no operation below tells \<^verbatim>\<open>-0.0\<close> from \<^verbatim>\<open>0.0\<close>.
\<close>

datatype double = Finite rat | PosInf | NegInf | NaN

text \<open>
  The binary exponent of a positive rational \<open>q\<close>: the \<open>e\<close> with
  \<open>2^e \<le> q < 2^(e+1)\<close>. It is the difference of the bit lengths of numerator and
  denominator, or one less.
\<close>

definition ilog2 :: "rat \<Rightarrow> int" where
  "ilog2 q =
     (let (a, b) = quotient_of q;
          d = bitlen a - bitlen b
      in if 2 powi d \<le> q then d else d - 1)"

text \<open>Rounding to the nearest integer, a tie to the even one.\<close>

definition round_half_even :: "rat \<Rightarrow> int" where
  "round_half_even x =
     (let f = \<lfloor>x\<rfloor>; r = x - of_int f
      in if r < 1 / 2 then f
         else if 1 / 2 < r then f + 1
         else if even f then f else f + 1)"

text \<open>
  The exponent of the last place of the doubles around \<open>q\<close>: 53 significant bits, and
  never below \<open>- 1074\<close>, the last place of the subnormal numbers.
\<close>

definition quantum_exponent :: "rat \<Rightarrow> int" where
  "quantum_exponent q = max (ilog2 \<bar>q\<bar> - 52) (- 1074)"

definition round_to_grid :: "rat \<Rightarrow> rat" where
  "round_to_grid q =
     (if q = 0 then 0
      else of_int (round_half_even (q / 2 powi quantum_exponent q)) * 2 powi quantum_exponent q)"

text \<open>
  Round to nearest, ties to even: the rounding of every float operation. A result whose
  rounded magnitude reaches \<open>2^1024\<close> overflows.
\<close>

definition round_to_double :: "rat \<Rightarrow> double" where
  "round_to_double q =
     (let v = round_to_grid q
      in if 2 ^ 1024 \<le> v then PosInf
         else if v \<le> - (2 ^ 1024) then NegInf
         else Finite v)"

text \<open>The arithmetic of doubles: \<^verbatim>\<open>-x\<close>, \<^verbatim>\<open>x + y\<close>, \<^verbatim>\<open>x - y\<close>, \<^verbatim>\<open>x * y\<close>.\<close>

fun float_neg :: "double \<Rightarrow> double" where
  "float_neg (Finite a) = Finite (- a)"
| "float_neg PosInf = NegInf"
| "float_neg NegInf = PosInf"
| "float_neg NaN = NaN"

fun float_add :: "double \<Rightarrow> double \<Rightarrow> double" where
  "float_add (Finite a) (Finite b) = round_to_double (a + b)"
| "float_add NaN y = NaN"
| "float_add x NaN = NaN"
| "float_add PosInf NegInf = NaN"
| "float_add NegInf PosInf = NaN"
| "float_add PosInf y = PosInf"
| "float_add x PosInf = PosInf"
| "float_add NegInf y = NegInf"
| "float_add x NegInf = NegInf"

definition float_sub :: "double \<Rightarrow> double \<Rightarrow> double" where
  "float_sub x y = float_add x (float_neg y)"

fun float_sign :: "double \<Rightarrow> int" where
  "float_sign (Finite a) = (if a = 0 then 0 else if 0 < a then 1 else - 1)"
| "float_sign PosInf = 1"
| "float_sign NegInf = - 1"
| "float_sign NaN = 0"

fun float_mul :: "double \<Rightarrow> double \<Rightarrow> double" where
  "float_mul (Finite a) (Finite b) = round_to_double (a * b)"
| "float_mul NaN y = NaN"
| "float_mul x NaN = NaN"
| "float_mul x y =
     (if float_sign x * float_sign y = 0 then NaN
      else if 0 < float_sign x * float_sign y then PosInf else NegInf)"

text \<open>
  \<^verbatim>\<open>x / y\<close> on floats raises \<^verbatim>\<open>ZeroDivisionError\<close> when \<open>y\<close> is zero; otherwise it is
  the division of doubles.
\<close>

fun float_truediv :: "double \<Rightarrow> double \<Rightarrow> double result" where
  "float_truediv x (Finite b) =
     (if b = 0 then Inl ZeroDivisionError
      else case x of
             Finite a \<Rightarrow> Inr (round_to_double (a / b))
           | NaN \<Rightarrow> Inr NaN
           | PosInf \<Rightarrow> Inr (if 0 < b then PosInf else NegInf)
           | NegInf \<Rightarrow> Inr (if 0 < b then NegInf else PosInf))"
| "float_truediv x NaN = Inr NaN"
| "float_truediv (Finite a) y = Inr (Finite 0)"
| "float_truediv x y = Inr NaN"

text \<open>The comparisons \<^verbatim>\<open>x < y\<close> and \<^verbatim>\<open>x <= y\<close> of floats; a NaN compares false.\<close>

fun float_lt :: "double \<Rightarrow> double \<Rightarrow> bool" where
  "float_lt (Finite a) (Finite b) = (a < b)"
| "float_lt NaN y = False"
| "float_lt x NaN = False"
| "float_lt x NegInf = False"
| "float_lt PosInf y = False"
| "float_lt NegInf y = True"
| "float_lt x PosInf = True"

fun float_le :: "double \<Rightarrow> double \<Rightarrow> bool" where
  "float_le (Finite a) (Finite b) = (a \<le> b)"
| "float_le NaN y = False"
| "float_le x NaN = False"
| "float_le NegInf y = True"
| "float_le x PosInf = True"
| "float_le x NegInf = False"
| "float_le PosInf y = False"

text \<open>
  An integer and a float are compared by their exact values (\<^verbatim>\<open>i > x\<close>, \<^verbatim>\<open>i < x\<close>): the
  integer is not converted.
\<close>

fun int_gt_float :: "int \<Rightarrow> double \<Rightarrow> bool" where
  "int_gt_float i (Finite a) = (a < of_int i)"
| "int_gt_float i PosInf = False"
| "int_gt_float i NegInf = True"
| "int_gt_float i NaN = False"

fun int_lt_float :: "int \<Rightarrow> double \<Rightarrow> bool" where
  "int_lt_float i (Finite a) = (of_int i < a)"
| "int_lt_float i PosInf = True"
| "int_lt_float i NegInf = False"
| "int_lt_float i NaN = False"

text \<open>
  In arithmetic with a float an integer is converted first. The conversion rounds, and
  raises \<^verbatim>\<open>OverflowError\<close> when the integer is too large for a double.
\<close>

definition float_of_int :: "int \<Rightarrow> double result" where
  "float_of_int i =
     (case round_to_double (of_int i) of
        Finite v \<Rightarrow> Inr (Finite v)
      | _ \<Rightarrow> Inl OverflowError)"

text \<open>
  \<^verbatim>\<open>a / b\<close> on two integers: the double nearest to the exact quotient;
  \<^verbatim>\<open>ZeroDivisionError\<close> for a zero divisor, \<^verbatim>\<open>OverflowError\<close> when the quotient is too
  large for a double.
\<close>

definition int_truediv :: "int \<Rightarrow> int \<Rightarrow> double result" where
  "int_truediv a b =
     (if b = 0 then Inl ZeroDivisionError
      else case round_to_double (of_int a / of_int b) of
             Finite v \<Rightarrow> Inr (Finite v)
           | _ \<Rightarrow> Inl OverflowError)"

subsection \<open>\<^verbatim>\<open>EpochData\<close> and \<^verbatim>\<open>OverwatchEpochData\<close>\<close>

record EpochData =
  block :: int
  epoch :: int
  block_per_epoch :: int
  seconds_per_epoch :: int
  percent_complete :: double
  blocks_elapsed :: int
  blocks_remaining :: int
  seconds_elapsed :: int
  seconds_remaining :: int

text \<open>\<^verbatim>\<open>EpochData.zero(current_block, epoch_length)\<close>\<close>

definition EpochData_zero :: "int \<Rightarrow> int \<Rightarrow> int \<Rightarrow> EpochData" where
  "EpochData_zero BLOCK_SECS current_block epoch_length =
     \<lparr> block = current_block,
       epoch = 0,
       block_per_epoch = epoch_length,
       seconds_per_epoch = epoch_length * BLOCK_SECS,
       percent_complete = Finite 0,
       blocks_elapsed = 0,
       blocks_remaining = epoch_length,
       seconds_elapsed = 0,
       seconds_remaining = epoch_length * BLOCK_SECS \<rparr>"

text \<open>
  The second dataclass repeats the field names of the first; its fields carry the prefix
  \<open>ow_\<close> here, except the two that only it has. The field
  \<^verbatim>\<open>seconds_remaining_until_reveal\<close> holds the integer 0 or a float; the integer 0 is
  the double 0 here.
\<close>

record OverwatchEpochData =
  ow_block :: int
  ow_epoch :: int
  overwatch_epoch :: int
  ow_block_per_epoch :: int
  ow_seconds_per_epoch :: int
  ow_percent_complete :: double
  ow_blocks_elapsed :: int
  ow_blocks_remaining :: int
  ow_seconds_elapsed :: int
  ow_seconds_remaining :: int
  seconds_remaining_until_reveal :: double

text \<open>
  The generated \<^verbatim>\<open>__init__\<close> of the dataclass: no field has a default, so a call that
  leaves a keyword out raises \<^verbatim>\<open>TypeError\<close>. An argument that the call site does not
  pass is \<open>None\<close>.
\<close>

definition OverwatchEpochData_init ::
  "int option \<Rightarrow> int option \<Rightarrow> int option \<Rightarrow> int option \<Rightarrow> int option \<Rightarrow> double option \<Rightarrow>
   int option \<Rightarrow> int option \<Rightarrow> int option \<Rightarrow> int option \<Rightarrow> double option \<Rightarrow>
   OverwatchEpochData result" where
  "OverwatchEpochData_init a_block a_epoch a_overwatch_epoch a_block_per_epoch
       a_seconds_per_epoch a_percent_complete a_blocks_elapsed a_blocks_remaining
       a_seconds_elapsed a_seconds_remaining a_until_reveal =
     (case (a_block, a_epoch, a_overwatch_epoch, a_block_per_epoch, a_seconds_per_epoch,
            a_percent_complete, a_blocks_elapsed, a_blocks_remaining, a_seconds_elapsed,
            a_seconds_remaining, a_until_reveal) of
        (Some b, Some e, Some oe, Some bpe, Some spe, Some pc, Some be, Some br, Some se,
         Some sr, Some ur) \<Rightarrow>
          Inr \<lparr> ow_block = b, ow_epoch = e, overwatch_epoch = oe, ow_block_per_epoch = bpe,
                ow_seconds_per_epoch = spe, ow_percent_complete = pc, ow_blocks_elapsed = be,
                ow_blocks_remaining = br, ow_seconds_elapsed = se, ow_seconds_remaining = sr,
                seconds_remaining_until_reveal = ur \<rparr>
      | _ \<Rightarrow> Inl TypeError)"

subsection \<open>Epoch calculator\<close>

text \<open>
  \<^verbatim>\<open>Hypertensor.get_epoch_data\<close>, after its two fetches. The first statement that can
  raise is \<^verbatim>\<open>current_block // epoch_length\<close>; \<^verbatim>\<open>blocks_elapsed / epoch_length\<close> is the
  division of two integers, with a float as its result.
\<close>

definition get_epoch_data :: "int \<Rightarrow> int \<Rightarrow> int \<Rightarrow> EpochData result" where
  "get_epoch_data BLOCK_SECS current_block epoch_length =
     (if epoch_length = 0 then Inl ZeroDivisionError
      else
        let epoch_v = current_block div epoch_length;
            blocks_elapsed_v = current_block mod epoch_length
        in case int_truediv blocks_elapsed_v epoch_length of
             Inl e \<Rightarrow> Inl e
           | Inr percent_complete_v \<Rightarrow>
               let blocks_remaining_v = epoch_length - blocks_elapsed_v;
                   seconds_elapsed_v = blocks_elapsed_v * BLOCK_SECS;
                   seconds_remaining_v = blocks_remaining_v * BLOCK_SECS
               in Inr \<lparr> block = current_block,
                        epoch = epoch_v,
                        block_per_epoch = epoch_length,
                        seconds_per_epoch = epoch_length * BLOCK_SECS,
                        percent_complete = percent_complete_v,
                        blocks_elapsed = blocks_elapsed_v,
                        blocks_remaining = blocks_remaining_v,
                        seconds_elapsed = seconds_elapsed_v,
                        seconds_remaining = seconds_remaining_v \<rparr>)"

text \<open>
  \<^verbatim>\<open>Hypertensor.get_subnet_epoch_data(slot)\<close>, after its two fetches. The comparison
  with \<^verbatim>\<open>slot\<close> comes before any division.
\<close>

definition get_subnet_epoch_data :: "int \<Rightarrow> int \<Rightarrow> int \<Rightarrow> int \<Rightarrow> EpochData result" where
  "get_subnet_epoch_data BLOCK_SECS current_block epoch_length slot =
     (if current_block < slot then Inr (EpochData_zero BLOCK_SECS current_block epoch_length)
      else
        let blocks_since_start = current_block - slot in
        if epoch_length = 0 then Inl ZeroDivisionError
        else
          let epoch_v = blocks_since_start div epoch_length;
              blocks_elapsed_v = blocks_since_start mod epoch_length
          in case int_truediv blocks_elapsed_v epoch_length of
               Inl e \<Rightarrow> Inl e
             | Inr percent_complete_v \<Rightarrow>
                 let blocks_remaining_v = epoch_length - blocks_elapsed_v;
                     seconds_elapsed_v = blocks_elapsed_v * BLOCK_SECS;
                     seconds_remaining_v = blocks_remaining_v * BLOCK_SECS
                 in Inr \<lparr> block = current_block,
                          epoch = epoch_v,
                          block_per_epoch = epoch_length,
                          seconds_per_epoch = epoch_length * BLOCK_SECS,
                          percent_complete = percent_complete_v,
                          blocks_elapsed = blocks_elapsed_v,
                          blocks_remaining = blocks_remaining_v,
                          seconds_elapsed = seconds_elapsed_v,
                          seconds_remaining = seconds_remaining_v \<rparr>)"

text \<open>
  \<^verbatim>\<open>Hypertensor.get_overwatch_epoch_data\<close>, after its four fetches (block number, epoch
  length, overwatch epoch multiplier, commit cutoff percent). The two locals
  \<^verbatim>\<open>epoch_cutoff_block\<close> and \<^verbatim>\<open>seconds_remaining_until_reveal\<close> are definitions of
  their own, so that their values can be stated. The cutoff is float arithmetic:
  \<^verbatim>\<open>cutoff_percentage\<close> is the fetched integer divided by the float \<^verbatim>\<open>1e18\<close>,
  \<^verbatim>\<open>block_increase_cutoff\<close> an integer times a float, and \<^verbatim>\<open>epoch_cutoff_block\<close> an
  integer plus a float. Each of the three integers is converted to a float first.
\<close>

definition overwatch_epoch_cutoff_block :: "int \<Rightarrow> int \<Rightarrow> int \<Rightarrow> int \<Rightarrow> double result" where
  "overwatch_epoch_cutoff_block current_block epoch_length multiplier cutoff_percent =
     (let epoch_v = current_block div epoch_length;
          overwatch_epoch_length = epoch_length * multiplier
      in case float_of_int cutoff_percent of
           Inl e \<Rightarrow> Inl e
         | Inr cutoff_percent_f \<Rightarrow>
             (case float_truediv cutoff_percent_f (Finite (10 ^ 18)) of
                Inl e \<Rightarrow> Inl e
              | Inr cutoff_percentage \<Rightarrow>
                  (case float_of_int overwatch_epoch_length of
                     Inl e \<Rightarrow> Inl e
                   | Inr overwatch_epoch_length_f \<Rightarrow>
                       let block_increase_cutoff =
                             float_mul overwatch_epoch_length_f cutoff_percentage
                       in (case float_of_int (overwatch_epoch_length * epoch_v) of
                             Inl e \<Rightarrow> Inl e
                           | Inr base_f \<Rightarrow> Inr (float_add base_f block_increase_cutoff)))))"

text \<open>
  The comparison \<^verbatim>\<open>current_block > epoch_cutoff_block\<close> is exact; the subtraction
  \<^verbatim>\<open>epoch_cutoff_block - current_block\<close> converts the block number to a float.
\<close>

definition overwatch_seconds_remaining_until_reveal ::
  "int \<Rightarrow> int \<Rightarrow> int \<Rightarrow> int \<Rightarrow> double result" where
  "overwatch_seconds_remaining_until_reveal current_block epoch_length multiplier cutoff_percent =
     (case overwatch_epoch_cutoff_block current_block epoch_length multiplier cutoff_percent of
        Inl e \<Rightarrow> Inl e
      | Inr epoch_cutoff_block \<Rightarrow>
          if int_gt_float current_block epoch_cutoff_block then Inr (Finite 0)
          else (case float_of_int current_block of
                  Inl e \<Rightarrow> Inl e
                | Inr current_block_f \<Rightarrow> Inr (float_sub epoch_cutoff_block current_block_f)))"

text \<open>
  The call of the constructor passes ten keywords; \<^verbatim>\<open>overwatch_epoch\<close> is not among
  them.
\<close>

definition get_overwatch_epoch_data ::
  "int \<Rightarrow> int \<Rightarrow> int \<Rightarrow> int \<Rightarrow> int \<Rightarrow> OverwatchEpochData result" where
  "get_overwatch_epoch_data BLOCK_SECS current_block epoch_length multiplier cutoff_percent =
     (if epoch_length = 0 then Inl ZeroDivisionError
      else
        let epoch_v = current_block div epoch_length;
            blocks_elapsed_v = current_block mod epoch_length
        in case int_truediv blocks_elapsed_v epoch_length of
             Inl e \<Rightarrow> Inl e
           | Inr percent_complete_v \<Rightarrow>
               let blocks_remaining_v = epoch_length - blocks_elapsed_v;
                   seconds_elapsed_v = blocks_elapsed_v * BLOCK_SECS;
                   seconds_remaining_v = blocks_remaining_v * BLOCK_SECS
               in (case overwatch_seconds_remaining_until_reveal
                          current_block epoch_length multiplier cutoff_percent of
                     Inl e \<Rightarrow> Inl e
                   | Inr seconds_remaining_until_reveal_v \<Rightarrow>
                       OverwatchEpochData_init
                         (Some current_block)
                         (Some epoch_v)
                         None
                         (Some epoch_length)
                         (Some (epoch_length * BLOCK_SECS))
                         (Some percent_complete_v)
                         (Some blocks_elapsed_v)
                         (Some blocks_remaining_v)
                         (Some seconds_elapsed_v)
                         (Some seconds_remaining_v)
                         (Some seconds_remaining_until_reveal_v)))"

text \<open>
  \<^verbatim>\<open>Hypertensor.in_overwatch_commit_period\<close>, after its fetches. It goes through
  \<^verbatim>\<open>get_epoch_data\<close> and repeats the cutoff arithmetic on the fields of the record.
\<close>

definition in_overwatch_commit_period :: "int \<Rightarrow> int \<Rightarrow> int \<Rightarrow> int \<Rightarrow> int \<Rightarrow> bool result" where
  "in_overwatch_commit_period BLOCK_SECS current_block epoch_length_fetched multiplier
       cutoff_percent =
     (case get_epoch_data BLOCK_SECS current_block epoch_length_fetched of
        Inl e \<Rightarrow> Inl e
      | Inr epoch_data \<Rightarrow>
          let epoch_length = block_per_epoch epoch_data;
              overwatch_epoch_length = epoch_length * multiplier;
              current_epoch = epoch epoch_data
          in case float_of_int cutoff_percent of
               Inl e \<Rightarrow> Inl e
             | Inr cutoff_percent_f \<Rightarrow>
                 (case float_truediv cutoff_percent_f (Finite (10 ^ 18)) of
                    Inl e \<Rightarrow> Inl e
                  | Inr cutoff_percentage \<Rightarrow>
                      (case float_of_int overwatch_epoch_length of
                         Inl e \<Rightarrow> Inl e
                       | Inr overwatch_epoch_length_f \<Rightarrow>
                           let block_increase_cutoff =
                                 float_mul overwatch_epoch_length_f cutoff_percentage
                           in (case float_of_int (overwatch_epoch_length * current_epoch) of
                                 Inl e \<Rightarrow> Inl e
                               | Inr base_f \<Rightarrow>
                                   let epoch_cutoff_block = float_add base_f block_increase_cutoff
                                   in Inr (int_lt_float (block epoch_data) epoch_cutoff_block)))))"

subsection \<open>Retry executor\<close>

text \<open>
  Every query function wraps an inner function in the decorator
  \<^verbatim>\<open>@retry(wait=wait_fixed(BLOCK_SECS+1), stop=stop_after_attempt(4))\<close> of the tenacity
  library. The world records what a call does: how often the wrapped function ran, how
  long the executor slept, and which methods of the interface the code called by name
  (what the interface does on its own when a \<^verbatim>\<open>with\<close> block is left is not recorded).
\<close>

datatype action = ConnectWebsocket | Query | Close | InitRuntime

record world =
  attempts :: nat
  slept :: int
  trace :: "action list"

definition log_action :: "action \<Rightarrow> world \<Rightarrow> world" where
  "log_action a w = w\<lparr>trace := trace w @ [a]\<rparr>"

text \<open>
  The decorator's loop. The first argument counts the attempts that are left after the
  current one. The wrapped function runs; a returned value is the result. An exception
  for which the retry condition is false is raised as it is. Otherwise, when no attempt
  is left (\<^verbatim>\<open>stop_after_attempt\<close>), \<^verbatim>\<open>RetryError\<close> is raised, which carries the last
  attempt; when one is left, the executor sleeps for the fixed wait and runs the
  function again.
\<close>

fun retry_loop ::
  "nat \<Rightarrow> int \<Rightarrow> (py_exception \<Rightarrow> bool) \<Rightarrow> (world \<Rightarrow> 'a result \<times> world) \<Rightarrow> world
   \<Rightarrow> 'a result \<times> world" where
  "retry_loop 0 wait_fixed retry_if f w =
     (case f w of
        (Inr v, w') \<Rightarrow> (Inr v, w')
      | (Inl e, w') \<Rightarrow> if retry_if e then (Inl (RetryError e), w') else (Inl e, w'))"
| "retry_loop (Suc left) wait_fixed retry_if f w =
     (case f w of
        (Inr v, w') \<Rightarrow> (Inr v, w')
      | (Inl e, w') \<Rightarrow>
          if retry_if e
          then retry_loop left wait_fixed retry_if f (w'\<lparr>slept := slept w' + wait_fixed\<rparr>)
          else (Inl e, w'))"

definition retry ::
  "int \<Rightarrow> nat \<Rightarrow> (py_exception \<Rightarrow> bool) \<Rightarrow> (world \<Rightarrow> 'a result \<times> world) \<Rightarrow> world
   \<Rightarrow> 'a result \<times> world" where
  "retry wait_fixed stop_after_attempt retry_if f w =
     retry_loop (stop_after_attempt - 1) wait_fixed retry_if f w"

text \<open>
  The retry condition. Without the keyword \<^verbatim>\<open>retry=\<close> the decorator retries on every
  exception; \<^verbatim>\<open>retry_if_exception_type(types)\<close> retries on the listed ones.
\<close>

definition retry_always :: "py_exception \<Rightarrow> bool" where
  "retry_always e = True"

definition retry_if_exception_type :: "py_exception list \<Rightarrow> py_exception \<Rightarrow> bool" where
  "retry_if_exception_type types e = (e \<in> set types)"

subsection \<open>Query layer\<close>

text \<open>
  The inner function of the query functions:
  \<^verbatim>\<open>try: with self.interface as _interface: ...; return result\<close>
  \<^verbatim>\<open>except SubstrateRequestException as e: print(...)\<close>.
  What the interface does in the \<^verbatim>\<open>with\<close> block at the \<open>i\<close>-th run of the function is
  given by \<open>interface i\<close>: a value or an exception. A \<^verbatim>\<open>SubstrateRequestException\<close> is
  caught and printed, and the function returns \<^verbatim>\<open>None\<close>; any other exception leaves the
  function.
\<close>

definition make_query :: "(nat \<Rightarrow> 'a result) \<Rightarrow> world \<Rightarrow> 'a option result \<times> world" where
  "make_query interface w =
     (let w' = log_action Query (w\<lparr>attempts := Suc (attempts w)\<rparr>)
      in case interface (attempts w) of
           Inr v \<Rightarrow> (Inr (Some v), w')
         | Inl e \<Rightarrow> if e = SubstrateRequestException then (Inr None, w') else (Inl e, w'))"

text \<open>\<^verbatim>\<open>Hypertensor.get_block_number\<close>\<close>

definition get_block_number ::
  "int \<Rightarrow> (nat \<Rightarrow> int result) \<Rightarrow> world \<Rightarrow> int option result \<times> world" where
  "get_block_number BLOCK_SECS interface w =
     retry (BLOCK_SECS + 1) 4 retry_always (make_query interface) w"

text \<open>
  \<^verbatim>\<open>Hypertensor.get_subnet_slot\<close>. At each run of its inner function the interface
  answers as \<open>interface i\<close> says: whether the websocket is there and connected, and how
  each of the calls ends that the run may make (\<open>None\<close>: it returns).
\<close>

record 'v slot_attempt =
  websocket_connected :: bool
  connect_websocket_in_try :: "py_exception option"
  query_outcome :: "'v result"
  close_outcome :: "py_exception option"
  connect_websocket_in_except :: "py_exception option"
  init_runtime_outcome :: "py_exception option"

text \<open>The \<^verbatim>\<open>try\<close> block: connect when needed, then query.\<close>

definition slot_try_block :: "'v slot_attempt \<Rightarrow> world \<Rightarrow> 'v result \<times> world" where
  "slot_try_block a w =
     (if \<not> websocket_connected a
      then (case connect_websocket_in_try a of
              Some e \<Rightarrow> (Inl e, log_action ConnectWebsocket w)
            | None \<Rightarrow> (query_outcome a, log_action Query (log_action ConnectWebsocket w)))
      else (query_outcome a, log_action Query w))"

text \<open>
  The handler \<^verbatim>\<open>except Exception as e\<close>: close (an exception of \<^verbatim>\<open>close\<close> is passed
  over), connect, load the runtime, then \<^verbatim>\<open>raise\<close>. An exception of one of the two
  last calls replaces the one that is being handled.
\<close>

definition slot_except_block :: "'v slot_attempt \<Rightarrow> py_exception \<Rightarrow> world \<Rightarrow> 'v result \<times> world" where
  "slot_except_block a e w =
     (let w1 = (case close_outcome a of
                  Some _ \<Rightarrow> log_action Close w
                | None \<Rightarrow> log_action Close w);
          w2 = log_action ConnectWebsocket w1
      in case connect_websocket_in_except a of
           Some e' \<Rightarrow> (Inl e', w2)
         | None \<Rightarrow>
             (case init_runtime_outcome a of
                Some e'' \<Rightarrow> (Inl e'', log_action InitRuntime w2)
              | None \<Rightarrow> (Inl e, log_action InitRuntime w2)))"

definition slot_make_query :: "(nat \<Rightarrow> 'v slot_attempt) \<Rightarrow> world \<Rightarrow> 'v result \<times> world" where
  "slot_make_query interface w =
     (let a = interface (attempts w)
      in case slot_try_block a (w\<lparr>attempts := Suc (attempts w)\<rparr>) of
           (Inr v, w') \<Rightarrow> (Inr v, w')
         | (Inl e, w') \<Rightarrow> slot_except_block a e w')"

definition slot_retry_types :: "py_exception list" where
  "slot_retry_types =
     [SubstrateRequestException, ConnectionError, AttributeError,
      WebSocketConnectionClosedException, WebSocketProtocolException]"

definition get_subnet_slot ::
  "int \<Rightarrow> (nat \<Rightarrow> 'v slot_attempt) \<Rightarrow> world \<Rightarrow> 'v option \<times> world" where
  "get_subnet_slot BLOCK_SECS interface w =
     (case retry (BLOCK_SECS + 1) 4 (retry_if_exception_type slot_retry_types)
             (slot_make_query interface) w of
        (Inr v, w') \<Rightarrow> (Some v, w')
      | (Inl e, w') \<Rightarrow> (None, w'))"

text \<open>
  What one failed run of the inner function of \<^verbatim>\<open>get_subnet_slot\<close> looks like when the
  query raises one of the listed exceptions and the calls around it return: the connect
  in the \<^verbatim>\<open>try\<close> block (when it is made), and the connect and the load of the runtime in
  the handler.
\<close>

definition slot_attempt_fails :: "'v slot_attempt \<Rightarrow> bool" where
  "slot_attempt_fails a \<longleftrightarrow>
     (websocket_connected a \<or> connect_websocket_in_try a = None)
   \<and> (case query_outcome a of Inl e \<Rightarrow> e \<in> set slot_retry_types | Inr v \<Rightarrow> False)
   \<and> connect_websocket_in_except a = None
   \<and> init_runtime_outcome a = None"

text \<open>The calls of the \<^verbatim>\<open>try\<close> block before the query.\<close>

definition slot_connect_trace :: "'v slot_attempt \<Rightarrow> action list" where
  "slot_connect_trace a = (if websocket_connected a then [] else [ConnectWebsocket])"

subsection \<open>Event log\<close>

text \<open>
  An entry of the event log, as far as \<^verbatim>\<open>get_reward_result_event\<close> reads it:
  \<^verbatim>\<open>event['event']['module_id']\<close>, \<^verbatim>\<open>['event_id']\<close> and \<^verbatim>\<open>['attributes']\<close>.
\<close>

record event =
  module_id :: string
  event_id :: string
  attributes :: "int list"

text \<open>
  The loop over the events. The assignment
  \<^verbatim>\<open>subnet_id, attestation_percentage = event['event']['attributes']\<close> raises
  \<^verbatim>\<open>ValueError\<close> unless there are exactly two attributes.
\<close>

fun scan_events :: "event list \<Rightarrow> int \<Rightarrow> (int \<times> int) option result" where
  "scan_events [] target_subnet_id = Inr None"
| "scan_events (ev # events) target_subnet_id =
     (if module_id ev = ''Network'' \<and> event_id ev = ''RewardResult''
      then (case attributes ev of
              [subnet_id, attestation_percentage] \<Rightarrow>
                if subnet_id = target_subnet_id
                then Inr (Some (subnet_id, attestation_percentage))
                else scan_events events target_subnet_id
            | _ \<Rightarrow> Inl ValueError)
      else scan_events events target_subnet_id)"

text \<open>
  What the node answers at one run of the inner function: the outcome of
  \<^verbatim>\<open>self.get_epoch_length()\<close> (\<open>Inr None\<close> when that function caught a
  \<^verbatim>\<open>SubstrateRequestException\<close>), and the event log of each block, addressed by the block
  number from which the block hash is taken.
\<close>

record event_attempt =
  epoch_length_outcome :: "int option result"
  events_of_block :: "int \<Rightarrow> event list result"

definition make_event_query ::
  "(nat \<Rightarrow> event_attempt) \<Rightarrow> int \<Rightarrow> int \<Rightarrow> world \<Rightarrow> (int \<times> int) option result \<times> world" where
  "make_event_query interface target_subnet_id epoch_arg w =
     (let a = interface (attempts w);
          w' = log_action Query (w\<lparr>attempts := Suc (attempts w)\<rparr>);
          body =
            (case epoch_length_outcome a of
               Inl e \<Rightarrow> Inl e
             | Inr None \<Rightarrow> Inl ValueError
             | Inr (Some epoch_length) \<Rightarrow>
                 let block_number = epoch_length * epoch_arg
                 in (case events_of_block a block_number of
                       Inl e \<Rightarrow> Inl e
                     | Inr events \<Rightarrow> scan_events events target_subnet_id))
      in case body of
           Inr data \<Rightarrow> (Inr data, w')
         | Inl e \<Rightarrow> if e = SubstrateRequestException then (Inr None, w') else (Inl e, w'))"

definition get_reward_result_event ::
  "int \<Rightarrow> (nat \<Rightarrow> event_attempt) \<Rightarrow> world \<Rightarrow> int \<Rightarrow> int \<Rightarrow> (int \<times> int) option result \<times> world" where
  "get_reward_result_event BLOCK_SECS interface w target_subnet_id epoch_arg =
     retry (BLOCK_SECS + 1) 4 retry_always
       (make_event_query interface target_subnet_id epoch_arg) w"

text \<open>
  The lookup as the specification words it: the first entry of the log whose module and
  event identifiers are the pair looked for.
\<close>

definition spec_first_module_event_match :: "event list \<Rightarrow> event option" where
  "spec_first_module_event_match events =
     List.find (\<lambda>ev. module_id ev = ''Network'' \<and> event_id ev = ''RewardResult'') events"

subsection \<open>Formatted queries\<close>

text \<open>\<^verbatim>\<open>SubnetNodeClass\<close> and its lookup by member name, \<^verbatim>\<open>SubnetNodeClass[name]\<close>.\<close>

datatype SubnetNodeClass = Registered | Idle | Included | Validator

fun SubnetNodeClass_value :: "SubnetNodeClass \<Rightarrow> int" where
  "SubnetNodeClass_value Registered = 1"
| "SubnetNodeClass_value Idle = 2"
| "SubnetNodeClass_value Included = 3"
| "SubnetNodeClass_value Validator = 4"

fun SubnetNodeClass_name :: "SubnetNodeClass \<Rightarrow> string" where
  "SubnetNodeClass_name Registered = ''Registered''"
| "SubnetNodeClass_name Idle = ''Idle''"
| "SubnetNodeClass_name Included = ''Included''"
| "SubnetNodeClass_name Validator = ''Validator''"

definition subnet_node_class_to_enum :: "string \<Rightarrow> SubnetNodeClass result" where
  "subnet_node_class_to_enum name =
     (if name = ''Registered'' then Inr Registered
      else if name = ''Idle'' then Inr Idle
      else if name = ''Included'' then Inr Included
      else if name = ''Validator'' then Inr Validator
      else Inl KeyError)"

text \<open>
  \<^verbatim>\<open>SubnetNodeInfo\<close> is declared in \<^verbatim>\<open>substrate.chain_data\<close>, which is not part of the
  sources. The record has the two entries of \<^verbatim>\<open>node.classification\<close> that the filter
  reads, and the identifier of the node. The decoder \<^verbatim>\<open>SubnetNodeInfo.list_from_vec_u8\<close>
  is a parameter: it returns the decoded nodes or raises.
\<close>

record SubnetNodeInfo =
  subnet_node_id :: int
  classification_node_class :: string
  classification_start_epoch :: int

text \<open>
  \<^verbatim>\<open>result["result"]\<close> on what \<^verbatim>\<open>get_subnet_nodes_info\<close> returned: \<^verbatim>\<open>None\<close> cannot be
  subscripted, and a response without the key raises \<^verbatim>\<open>KeyError\<close>.
\<close>

definition subscript_result :: "(string \<rightharpoonup> 'b) option \<Rightarrow> 'b result" where
  "subscript_result response =
     (case response of
        None \<Rightarrow> Inl TypeError
      | Some d \<Rightarrow> (case d ''result'' of None \<Rightarrow> Inl KeyError | Some b \<Rightarrow> Inr b))"

text \<open>
  The \<^verbatim>\<open>try\<close> block that the formatted functions share: the call of the query function,
  whose outcome is \<open>fetched\<close>, the subscript and the decoder.
\<close>

definition fetch_and_decode ::
  "('b \<Rightarrow> SubnetNodeInfo list result) \<Rightarrow> (string \<rightharpoonup> 'b) option result
   \<Rightarrow> SubnetNodeInfo list result" where
  "fetch_and_decode list_from_vec_u8 fetched =
     (case fetched of
        Inl e \<Rightarrow> Inl e
      | Inr response \<Rightarrow>
          (case subscript_result response of
             Inl e \<Rightarrow> Inl e
           | Inr b \<Rightarrow> list_from_vec_u8 b))"

text \<open>\<^verbatim>\<open>Hypertensor.get_subnet_nodes_info_formatted\<close>: \<^verbatim>\<open>except Exception: return None\<close>.\<close>

definition get_subnet_nodes_info_formatted ::
  "('b \<Rightarrow> SubnetNodeInfo list result) \<Rightarrow> (string \<rightharpoonup> 'b) option result
   \<Rightarrow> SubnetNodeInfo list option" where
  "get_subnet_nodes_info_formatted list_from_vec_u8 fetched =
     (case fetch_and_decode list_from_vec_u8 fetched of
        Inl e \<Rightarrow> None
      | Inr subnet_nodes_info \<Rightarrow> Some subnet_nodes_info)"

text \<open>
  The list comprehension of \<^verbatim>\<open>get_min_class_subnet_nodes_formatted\<close>. The name of the
  class is looked up for every node; the start epoch is compared only when the class is
  high enough.
\<close>

fun min_class_comprehension ::
  "SubnetNodeInfo list \<Rightarrow> int \<Rightarrow> SubnetNodeClass \<Rightarrow> SubnetNodeInfo list result" where
  "min_class_comprehension [] subnet_epoch min_class = Inr []"
| "min_class_comprehension (node # subnet_nodes) subnet_epoch min_class =
     (case subnet_node_class_to_enum (classification_node_class node) of
        Inl e \<Rightarrow> Inl e
      | Inr c \<Rightarrow>
          (case min_class_comprehension subnet_nodes subnet_epoch min_class of
             Inl e \<Rightarrow> Inl e
           | Inr kept \<Rightarrow>
               if SubnetNodeClass_value c \<ge> SubnetNodeClass_value min_class
                  \<and> classification_start_epoch node \<le> subnet_epoch
               then Inr (node # kept) else Inr kept))"

text \<open>\<^verbatim>\<open>Hypertensor.get_min_class_subnet_nodes_formatted\<close>: \<^verbatim>\<open>except Exception: return []\<close>.\<close>

definition get_min_class_subnet_nodes_formatted ::
  "('b \<Rightarrow> SubnetNodeInfo list result) \<Rightarrow> (string \<rightharpoonup> 'b) option result
   \<Rightarrow> int \<Rightarrow> SubnetNodeClass \<Rightarrow> SubnetNodeInfo list" where
  "get_min_class_subnet_nodes_formatted list_from_vec_u8 fetched subnet_epoch min_class =
     (case fetch_and_decode list_from_vec_u8 fetched of
        Inl e \<Rightarrow> []
      | Inr subnet_nodes \<Rightarrow>
          (case min_class_comprehension subnet_nodes subnet_epoch min_class of
             Inl e \<Rightarrow> []
           | Inr kept \<Rightarrow> kept))"

section \<open>Properties of the rounding\<close>

text \<open>
  The facts about \<open>round_to_grid\<close> that the epoch calculator needs: it never crosses a
  double (a number \<open>k * 2^s\<close> with \<open>\<bar>k\<bar> \<le> 2^53\<close> and \<open>s \<ge> - 1074\<close>), it leaves a
  double as it is, and it is monotone.
\<close>

lemma powi_nat: "0 \<le> i \<Longrightarrow> (2::rat) powi i = 2 ^ nat i"
  by (simp add: power_int_def)

lemma bitlen_rat_bounds:
  assumes "0 < a"
  shows "(2::rat) powi (bitlen a - 1) \<le> of_int a" and "of_int a < (2::rat) powi bitlen a"
proof -
  have pos: "0 < bitlen a"
    using assms bitlen_eq_zero_iff [of a] bitlen_nonneg [of a] by auto
  from bitlen_bounds [OF assms]
  have lo: "2 ^ nat (bitlen a - 1) \<le> a" and hi: "a < 2 ^ nat (bitlen a)" by auto
  have "(2::rat) powi (bitlen a - 1) = of_int (2 ^ nat (bitlen a - 1))"
    using pos by (simp add: powi_nat)
  also have "\<dots> \<le> of_int a" using lo by (simp only: of_int_le_iff)
  finally show "(2::rat) powi (bitlen a - 1) \<le> of_int a" .
  have "of_int a < (of_int (2 ^ nat (bitlen a)) :: rat)"
    using hi by (simp only: of_int_less_iff)
  also have "\<dots> = 2 powi bitlen a" using pos by (simp add: powi_nat)
  finally show "of_int a < (2::rat) powi bitlen a" .
qed

lemma ilog2_bounds:
  assumes "0 < q"
  shows "2 powi ilog2 q \<le> q" and "q < 2 powi (ilog2 q + 1)"
proof -
  obtain a b where ab: "quotient_of q = (a, b)" by (cases "quotient_of q")
  then have q: "q = of_int a / of_int b" and b: "0 < b"
    by (auto dest: quotient_of_div quotient_of_denom_pos)
  from assms q b have a: "0 < a"
    by (simp add: zero_less_divide_iff)
  define d where "d = bitlen a - bitlen b"
  note A = bitlen_rat_bounds [OF a] and B = bitlen_rat_bounds [OF b]
  have brat: "0 < (of_int b :: rat)" using b by simp
  have lower: "2 powi (d - 1) < q"
  proof -
    have "2 powi (d - 1) * of_int b < (2::rat) powi (d - 1) * 2 powi bitlen b"
      using B(2) by simp
    also have "\<dots> = 2 powi (bitlen a - 1)"
      by (simp add: d_def flip: power_int_add)
    also have "\<dots> \<le> of_int a" by (rule A(1))
    finally show ?thesis using brat by (simp add: q pos_less_divide_eq)
  qed
  have upper: "q < 2 powi (d + 1)"
  proof -
    have "of_int a < (2::rat) powi bitlen a" by (rule A(2))
    also have "\<dots> = 2 powi (d + 1) * 2 powi (bitlen b - 1)"
      by (simp add: d_def flip: power_int_add)
    also have "\<dots> \<le> 2 powi (d + 1) * of_int b"
      using B(1) by simp
    finally show ?thesis using brat by (simp add: q pos_divide_less_eq)
  qed
  have il: "ilog2 q = (if 2 powi d \<le> q then d else d - 1)"
    by (simp add: ilog2_def ab d_def Let_def)
  show "2 powi ilog2 q \<le> q"
    using lower by (simp add: il)
  show "q < 2 powi (ilog2 q + 1)"
    using upper by (auto simp add: il not_le)
qed

lemma powi2_less_imp: "(2::rat) powi e < 2 powi f \<Longrightarrow> e < f"
proof (rule ccontr)
  assume less: "(2::rat) powi e < 2 powi f" and "\<not> e < f"
  then have "f \<le> e" by simp
  then have "(2::rat) powi f \<le> 2 powi e"
    by (intro power_int_increasing) simp_all
  with less show False by simp
qed

lemma ilog2_unique:
  assumes "2 powi e \<le> q" and "q < 2 powi (e + 1)"
  shows "ilog2 q = e"
proof -
  have "0 < q" using assms(1) zero_less_power_int [of "2::rat" e] by linarith
  note B = ilog2_bounds [OF this]
  have "(2::rat) powi e < 2 powi (ilog2 q + 1)" using assms(1) B(2) by linarith
  then have "e < ilog2 q + 1" by (rule powi2_less_imp)
  moreover have "(2::rat) powi ilog2 q < 2 powi (e + 1)" using assms(2) B(1) by linarith
  then have "ilog2 q < e + 1" by (rule powi2_less_imp)
  ultimately show ?thesis by simp
qed

lemma round_half_even_of_int: "round_half_even (of_int n) = n"
  by (simp add: round_half_even_def)

lemma round_half_even_floor: "\<lfloor>x\<rfloor> \<le> round_half_even x"
  by (simp add: round_half_even_def Let_def)

lemma round_half_even_floor_Suc: "round_half_even x \<le> \<lfloor>x\<rfloor> + 1"
  by (simp add: round_half_even_def Let_def)

lemma round_half_even_ge: "of_int n \<le> x \<Longrightarrow> n \<le> round_half_even x"
proof -
  assume "of_int n \<le> x"
  then have "n \<le> \<lfloor>x\<rfloor>" by (simp add: le_floor_iff)
  with round_half_even_floor [of x] show ?thesis by simp
qed

lemma round_half_even_le:
  assumes "x \<le> of_int n"
  shows "round_half_even x \<le> n"
proof (cases "x = of_int n")
  case True
  then show ?thesis by (simp add: round_half_even_of_int)
next
  case False
  with assms have "x < of_int n" by simp
  then have "\<lfloor>x\<rfloor> < n" by (simp add: floor_less_iff)
  with round_half_even_floor_Suc [of x] show ?thesis by simp
qed

lemma round_half_even_mono:
  assumes "x \<le> y"
  shows "round_half_even x \<le> round_half_even y"
proof (cases "\<lfloor>x\<rfloor> = \<lfloor>y\<rfloor>")
  case True
  with assms show ?thesis
    by (auto simp add: round_half_even_def Let_def)
next
  case False
  with assms have "\<lfloor>x\<rfloor> < \<lfloor>y\<rfloor>"
    using floor_mono [of x y] by simp
  with round_half_even_floor_Suc [of x] round_half_even_floor [of y]
  show ?thesis by simp
qed

lemma round_half_even_minus: "round_half_even (- x) = - round_half_even x"
proof (cases "x \<in> \<int>")
  case True
  then obtain n where "x = of_int n" by (auto elim: Ints_cases)
  then show ?thesis
    by (simp add: round_half_even_of_int flip: of_int_minus)
next
  case False
  then have "x \<noteq> of_int \<lfloor>x\<rfloor>"
    by (metis Ints_of_int)
  then have fl: "\<lfloor>- x\<rfloor> = - \<lfloor>x\<rfloor> - 1"
    by (simp add: floor_minus ceiling_altdef)
  show ?thesis
    unfolding round_half_even_def Let_def fl
    by (auto simp add: algebra_simps)
qed


lemma quantum_exponent_ge: "- 1074 \<le> quantum_exponent q"
  by (simp add: quantum_exponent_def)

lemma quantum_exponent_minus: "quantum_exponent (- q) = quantum_exponent q"
  by (simp add: quantum_exponent_def)

lemma round_to_grid_minus: "round_to_grid (- q) = - round_to_grid q"
  by (simp add: round_to_grid_def round_half_even_minus quantum_exponent_minus)

lemma powi2_split: "s \<le> t \<Longrightarrow> (2::rat) powi t = of_int (2 ^ nat (t - s)) * 2 powi s"
proof -
  assume st: "s \<le> t"
  have "(2::rat) powi t = 2 powi ((t - s) + s)" by simp
  also have "\<dots> = 2 powi (t - s) * 2 powi s"
    by (rule power_int_add) simp
  also have "(2::rat) powi (t - s) = 2 ^ nat (t - s)"
    using st by (simp add: powi_nat)
  finally show ?thesis by simp
qed

lemma round_to_grid_nonneg: "0 \<le> q \<Longrightarrow> 0 \<le> round_to_grid q"
proof -
  assume "0 \<le> q"
  then have "of_int 0 \<le> q / 2 powi quantum_exponent q" by simp
  then have "0 \<le> round_half_even (q / 2 powi quantum_exponent q)"
    by (rule round_half_even_ge)
  then show ?thesis by (simp add: round_to_grid_def)
qed

lemma round_to_grid_le:
  assumes q: "0 < q" and le: "q \<le> of_int k * 2 powi s" and s: "- 1074 \<le> s" and k: "k \<le> 2 ^ 53"
  shows "round_to_grid q \<le> of_int k * 2 powi s"
proof -
  define P where "P = quantum_exponent q"
  define e where "e = ilog2 q"
  have P: "P = max (e - 52) (- 1074)"
    using q by (simp add: P_def e_def quantum_exponent_def)
  have rtg: "round_to_grid q = of_int (round_half_even (q / 2 powi P)) * 2 powi P"
    using q by (simp add: round_to_grid_def P_def)
  have pos: "0 < (2::rat) powi P" by simp
  show ?thesis
  proof (cases "P \<le> s")
    case True
    have "q / 2 powi P \<le> of_int k * 2 powi s / 2 powi P"
      using le pos by (simp add: divide_right_mono)
    also have "\<dots> = of_int (k * 2 ^ nat (s - P))"
      using powi2_split [OF True] by simp
    finally have "round_half_even (q / 2 powi P) \<le> k * 2 ^ nat (s - P)"
      by (rule round_half_even_le)
    then have "(of_int (round_half_even (q / 2 powi P)) :: rat) \<le> of_int (k * 2 ^ nat (s - P))"
      by (simp only: of_int_le_iff)
    then have "round_to_grid q \<le> of_int (k * 2 ^ nat (s - P)) * 2 powi P"
      unfolding rtg using pos by (simp only: mult_le_cancel_right_pos)
    also have "\<dots> = of_int k * 2 powi s"
      using powi2_split [OF True] by simp
    finally show ?thesis .
  next
    case False
    then have Pe: "P = e - 52" and es: "s + 53 \<le> e" using P s by auto
    have "(2::rat) powi e \<le> q" using ilog2_bounds(1) [OF q] by (simp add: e_def)
    moreover have "of_int k * 2 powi s \<le> (2::rat) powi (s + 53)"
    proof -
      have "(of_int k :: rat) \<le> of_int (2 ^ 53)" using k by (simp only: of_int_le_iff)
      then have "of_int k * 2 powi s \<le> (2::rat) ^ 53 * 2 powi s" by simp
      also have "\<dots> = 2 powi (s + 53)"
        using power_int_add [of "2::rat" s 53] by simp
      finally show ?thesis .
    qed
    moreover have "(2::rat) powi (s + 53) \<le> 2 powi e"
      using es by (intro power_int_increasing) simp_all
    ultimately have qe: "q = 2 powi e" and eq: "q = of_int k * 2 powi s"
      using le by auto
    have "q / 2 powi P = 2 powi (e - P)"
      by (simp add: qe power_int_diff)
    also have "\<dots> = of_int (2 ^ 52)" by (simp add: Pe)
    finally have "round_half_even (q / 2 powi P) = 2 ^ 52"
      by (simp only: round_half_even_of_int)
    then have "round_to_grid q = 2 ^ 52 * 2 powi P" by (simp add: rtg)
    also have "\<dots> = 2 powi e"
      using power_int_add [of "2::rat" 52 P] by (simp add: Pe)
    finally show ?thesis using qe eq by simp
  qed
qed

lemma round_to_grid_ge:
  assumes q: "0 < q" and le: "of_int k * 2 powi s \<le> q" and s: "- 1074 \<le> s" and k: "k \<le> 2 ^ 53"
  shows "of_int k * 2 powi s \<le> round_to_grid q"
proof -
  define P where "P = quantum_exponent q"
  define e where "e = ilog2 q"
  have P: "P = max (e - 52) (- 1074)"
    using q by (simp add: P_def e_def quantum_exponent_def)
  have rtg: "round_to_grid q = of_int (round_half_even (q / 2 powi P)) * 2 powi P"
    using q by (simp add: round_to_grid_def P_def)
  have pos: "0 < (2::rat) powi P" by simp
  show ?thesis
  proof (cases "P \<le> s")
    case True
    have "(of_int (k * 2 ^ nat (s - P)) :: rat) = of_int k * 2 powi s / 2 powi P"
      using powi2_split [OF True] by simp
    also have "\<dots> \<le> q / 2 powi P"
      using le pos by (simp add: divide_right_mono)
    finally have "k * 2 ^ nat (s - P) \<le> round_half_even (q / 2 powi P)"
      by (rule round_half_even_ge)
    then have "(of_int (k * 2 ^ nat (s - P)) :: rat) \<le> of_int (round_half_even (q / 2 powi P))"
      by (simp only: of_int_le_iff)
    then have *: "of_int (k * 2 ^ nat (s - P)) * 2 powi P \<le> round_to_grid q"
      unfolding rtg using pos by (simp only: mult_le_cancel_right_pos)
    have "of_int k * 2 powi s = (of_int (k * 2 ^ nat (s - P)) :: rat) * 2 powi P"
      using powi2_split [OF True] by simp
    also note *
    finally show ?thesis .
  next
    case False
    then have Pe: "P = e - 52" and es: "s + 53 \<le> e" using P s by auto
    have qe: "(2::rat) powi e \<le> q" using ilog2_bounds(1) [OF q] by (simp add: e_def)
    have "of_int (2 ^ 52) = (2::rat) powi (e - P)" by (simp add: Pe)
    also have "\<dots> = 2 powi e / 2 powi P" by (simp add: power_int_diff)
    also have "\<dots> \<le> q / 2 powi P" using qe pos by (simp add: divide_right_mono)
    finally have "2 ^ 52 \<le> round_half_even (q / 2 powi P)"
      by (rule round_half_even_ge)
    then have "(of_int (2 ^ 52) :: rat) \<le> of_int (round_half_even (q / 2 powi P))"
      by (simp only: of_int_le_iff)
    then have "of_int (2 ^ 52) * 2 powi P \<le> round_to_grid q"
      unfolding rtg using pos by (simp only: mult_le_cancel_right_pos)
    moreover have "of_int (2 ^ 52) * (2::rat) powi P = 2 powi e"
      using power_int_add [of "2::rat" 52 P] by (simp add: Pe)
    moreover have "of_int k * 2 powi s \<le> (2::rat) powi e"
    proof -
      have "(of_int k :: rat) \<le> of_int (2 ^ 53)" using k by (simp only: of_int_le_iff)
      then have "of_int k * 2 powi s \<le> (2::rat) ^ 53 * 2 powi s" by simp
      also have "\<dots> = 2 powi (s + 53)"
        using power_int_add [of "2::rat" s 53] by simp
      also have "\<dots> \<le> 2 powi e"
        using es by (intro power_int_increasing) simp_all
      finally show ?thesis .
    qed
    ultimately show ?thesis by simp
  qed
qed

lemma round_to_grid_nonpos: "q \<le> 0 \<Longrightarrow> round_to_grid q \<le> 0"
  using round_to_grid_nonneg [of "- q"] by (simp add: round_to_grid_minus)

lemma ilog2_mono:
  assumes "0 < q1" and "q1 \<le> q2"
  shows "ilog2 q1 \<le> ilog2 q2"
proof -
  have "(2::rat) powi ilog2 q1 \<le> q1" using assms(1) by (rule ilog2_bounds)
  also note assms(2)
  also have "q2 < 2 powi (ilog2 q2 + 1)" using assms by (intro ilog2_bounds) simp
  finally have "ilog2 q1 < ilog2 q2 + 1" by (rule powi2_less_imp)
  then show ?thesis by simp
qed

lemma round_to_grid_mono_pos:
  assumes q1: "0 < q1" and le: "q1 \<le> q2"
  shows "round_to_grid q1 \<le> round_to_grid q2"
proof -
  have q2: "0 < q2" using assms by simp
  define P1 where "P1 = quantum_exponent q1"
  define P2 where "P2 = quantum_exponent q2"
  have P1: "P1 = max (ilog2 q1 - 52) (- 1074)" and P2: "P2 = max (ilog2 q2 - 52) (- 1074)"
    using q1 q2 by (simp_all add: P1_def P2_def quantum_exponent_def)
  have ee: "ilog2 q1 \<le> ilog2 q2" using q1 le by (rule ilog2_mono)
  show ?thesis
  proof (cases "P1 = P2")
    case True
    have "q1 / 2 powi P1 \<le> q2 / 2 powi P1"
      using le by (simp add: divide_right_mono)
    then have "round_half_even (q1 / 2 powi P1) \<le> round_half_even (q2 / 2 powi P1)"
      by (rule round_half_even_mono)
    then have "(of_int (round_half_even (q1 / 2 powi P1)) :: rat)
                 \<le> of_int (round_half_even (q2 / 2 powi P1))"
      by (simp only: of_int_le_iff)
    then have "of_int (round_half_even (q1 / 2 powi P1)) * (2::rat) powi P1
                 \<le> of_int (round_half_even (q2 / 2 powi P1)) * 2 powi P1"
      by (simp only: mult_le_cancel_right_pos zero_less_power_int zero_less_numeral)
    then show ?thesis
      using q1 q2 True by (simp add: round_to_grid_def P1_def P2_def)
  next
    case False
    with P1 P2 ee have P2e: "P2 = ilog2 q2 - 52" and lt: "ilog2 q1 < ilog2 q2" and P2g: "- 1074 \<le> P2"
      by auto
    define y :: rat where "y = of_int (2 ^ 52) * 2 powi P2"
    have y: "y = 2 powi ilog2 q2"
      using power_int_add [of "2::rat" 52 P2] by (simp add: y_def P2e)
    have "q1 < 2 powi (ilog2 q1 + 1)" using q1 by (rule ilog2_bounds)
    also have "\<dots> \<le> y"
      unfolding y using lt by (intro power_int_increasing) simp_all
    finally have q1y: "q1 \<le> y" by simp
    have yq2: "y \<le> q2" unfolding y using q2 by (rule ilog2_bounds)
    have "round_to_grid q1 \<le> y"
      unfolding y_def using q1 q1y P2g by (intro round_to_grid_le) (simp_all add: y_def)
    also have "y \<le> round_to_grid q2"
      unfolding y_def using q2 yq2 P2g by (intro round_to_grid_ge) (simp_all add: y_def)
    finally show ?thesis .
  qed
qed

lemma round_to_grid_mono:
  assumes "q1 \<le> q2"
  shows "round_to_grid q1 \<le> round_to_grid q2"
proof -
  consider "0 < q1" | "q1 \<le> 0" "0 \<le> q2" | "q2 < 0" by linarith
  then show ?thesis
  proof cases
    case 1
    then show ?thesis using assms by (rule round_to_grid_mono_pos)
  next
    case 2
    then show ?thesis
      using round_to_grid_nonpos [of q1] round_to_grid_nonneg [of q2] by simp
  next
    case 3
    then have "0 < - q2" and "- q2 \<le> - q1" using assms by simp_all
    then have "round_to_grid (- q2) \<le> round_to_grid (- q1)"
      by (rule round_to_grid_mono_pos)
    then show ?thesis by (simp add: round_to_grid_minus)
  qed
qed

lemma round_to_grid_exact:
  assumes s: "- 1074 \<le> s" and k: "\<bar>k\<bar> \<le> 2 ^ 53"
  shows "round_to_grid (of_int k * 2 powi s) = of_int k * 2 powi s"
proof -
  have pos: "round_to_grid (of_int j * 2 powi s) = of_int j * 2 powi s"
    if "0 < j" "j \<le> 2 ^ 53" for j
  proof -
    have "0 < (of_int j :: rat) * 2 powi s" using that by simp
    then have "round_to_grid (of_int j * 2 powi s) \<le> of_int j * 2 powi s"
      and "of_int j * 2 powi s \<le> round_to_grid (of_int j * 2 powi s)"
      using s that by (auto intro: round_to_grid_le round_to_grid_ge)
    then show ?thesis by simp
  qed
  consider "0 < k" | "k = 0" | "k < 0" by linarith
  then show ?thesis
  proof cases
    case 1
    then show ?thesis using k by (intro pos) simp_all
  next
    case 2
    then show ?thesis by (simp add: round_to_grid_def)
  next
    case 3
    then have "round_to_grid (of_int (- k) * 2 powi s) = of_int (- k) * 2 powi s"
      using k by (intro pos) simp_all
    then show ?thesis
      using round_to_grid_minus [of "of_int k * 2 powi s"] by simp
  qed
qed

lemma round_to_grid_of_int:
  assumes "\<bar>n\<bar> \<le> 2 ^ 53"
  shows "round_to_grid (of_int n) = of_int n"
  using round_to_grid_exact [of 0 n] assms by simp

lemma round_to_grid_on_grid: "\<exists>m. round_to_grid q = of_int m * 2 powi (- 1074)"
proof (cases "q = 0")
  case True
  then have "round_to_grid q = of_int 0 * 2 powi (- 1074)" by (simp add: round_to_grid_def)
  then show ?thesis by blast
next
  case False
  define P where "P = quantum_exponent q"
  have "- 1074 \<le> P" by (simp add: P_def quantum_exponent_ge)
  from powi2_split [OF this]
  have "round_to_grid q
          = of_int (round_half_even (q / 2 powi P) * 2 ^ nat (P - (- 1074))) * 2 powi (- 1074)"
    using False by (simp add: round_to_grid_def P_def)
  then show ?thesis by blast
qed

lemma round_to_grid_pos_on_grid:
  assumes "0 < q" and "q = of_int m * 2 powi (- 1074)"
  shows "0 < round_to_grid q"
proof -
  have "0 < m" using assms by (simp add: zero_less_mult_iff)
  then have "1 \<le> m" by simp
  then have "(of_int 1 :: rat) \<le> of_int m" by (simp only: of_int_le_iff)
  then have "of_int 1 * 2 powi (- 1074) \<le> q"
    unfolding assms(2) by (simp only: mult_le_cancel_right_pos zero_less_power_int zero_less_numeral)
  with assms(1) have "of_int 1 * 2 powi (- 1074) \<le> round_to_grid q"
    by (intro round_to_grid_ge) simp_all
  moreover have "0 < (of_int 1 :: rat) * 2 powi (- 1074)" by simp
  ultimately show ?thesis by linarith
qed

subsection \<open>Doubles\<close>

lemma round_to_double_Finite:
  "round_to_double q = Finite v \<Longrightarrow> v = round_to_grid q"
  by (simp add: round_to_double_def Let_def split: if_splits)

lemma round_to_double_not_NaN: "round_to_double q \<noteq> NaN"
  by (simp add: round_to_double_def Let_def)

lemma round_to_double_bounded:
  assumes "\<bar>round_to_grid q\<bar> < 2 ^ 1024"
  shows "round_to_double q = Finite (round_to_grid q)"
  using assms by (simp add: round_to_double_def Let_def abs_less_iff)

lemma round_to_grid_abs_le:
  assumes le: "\<bar>q\<bar> \<le> of_int k * 2 powi s" and s: "- 1074 \<le> s" and k: "k \<le> 2 ^ 53"
  shows "\<bar>round_to_grid q\<bar> \<le> of_int k * 2 powi s"
proof -
  consider "0 < q" | "q = 0" | "q < 0" by linarith
  then show ?thesis
  proof cases
    case 1
    then have "round_to_grid q \<le> of_int k * 2 powi s"
      using le s k by (intro round_to_grid_le) simp_all
    moreover have "0 \<le> round_to_grid q" using 1 by (intro round_to_grid_nonneg) simp
    ultimately show ?thesis by simp
  next
    case 2
    then show ?thesis using le by (simp add: round_to_grid_def)
  next
    case 3
    then have "round_to_grid (- q) \<le> of_int k * 2 powi s"
      using le s k by (intro round_to_grid_le) simp_all
    moreover have "0 \<le> round_to_grid (- q)" using 3 by (intro round_to_grid_nonneg) simp
    ultimately show ?thesis by (simp add: round_to_grid_minus)
  qed
qed

lemma two_powi_1023: "of_int (2 ^ 52) * (2::rat) powi 971 = 2 ^ 1023"
proof -
  have "(2::rat) powi 971 = 2 ^ 971" using powi_nat [of 971] by simp
  then show ?thesis by simp
qed

lemma round_to_double_below_2_1023:
  assumes "\<bar>q\<bar> \<le> 2 ^ 1023"
  shows "round_to_double q = Finite (round_to_grid q)"
proof -
  have "\<bar>q\<bar> \<le> of_int (2 ^ 52) * 2 powi 971"
    using assms by (simp only: two_powi_1023)
  then have "\<bar>round_to_grid q\<bar> \<le> of_int (2 ^ 52) * 2 powi 971"
    by (rule round_to_grid_abs_le) simp_all
  then have "\<bar>round_to_grid q\<bar> \<le> 2 ^ 1023" by (simp only: two_powi_1023)
  then have "\<bar>round_to_grid q\<bar> < 2 ^ 1024" by simp
  then show ?thesis by (rule round_to_double_bounded)
qed

lemma round_to_double_of_int:
  assumes "\<bar>n\<bar> \<le> 2 ^ 53"
  shows "round_to_double (of_int n) = Finite (of_int n)"
proof -
  have "\<bar>rat_of_int n\<bar> \<le> of_int (2 ^ 53)"
    using assms by (simp only: of_int_le_iff flip: of_int_abs)
  then have "\<bar>rat_of_int n\<bar> \<le> 2 ^ 1023" by simp
  then show ?thesis
    using round_to_grid_of_int [OF assms] by (simp add: round_to_double_below_2_1023)
qed

lemma float_of_int_exact:
  assumes "\<bar>n\<bar> \<le> 2 ^ 53"
  shows "float_of_int n = Inr (Finite (of_int n))"
  using round_to_double_of_int [OF assms] by (simp add: float_of_int_def)

lemma int_truediv_unit:
  assumes "0 \<le> a" and "a < b"
  shows "\<exists>v. int_truediv a b = Inr (Finite v) \<and> v = round_to_grid (of_int a / of_int b)
           \<and> 0 \<le> v \<and> v \<le> 1 \<and> (b \<le> 2 ^ 53 \<longrightarrow> v < 1)"
proof -
  define q :: rat where "q = of_int a / of_int b"
  have b: "0 < b" using assms by simp
  have q0: "0 \<le> q" using assms by (simp add: q_def)
  have q1: "q \<le> 1" using assms by (simp add: q_def)
  have lo: "0 \<le> round_to_grid q" using q0 by (rule round_to_grid_nonneg)
  have "\<bar>q\<bar> \<le> of_int 1 * 2 powi 0" using q0 q1 by simp
  then have "\<bar>round_to_grid q\<bar> \<le> of_int 1 * 2 powi 0"
    by (rule round_to_grid_abs_le) simp_all
  then have hi: "round_to_grid q \<le> 1" by simp
  have fin: "round_to_double q = Finite (round_to_grid q)"
    using q0 q1 by (intro round_to_double_below_2_1023) simp
  have strict: "round_to_grid q < 1" if "b \<le> 2 ^ 53"
  proof -
    have "of_int a \<le> (of_int b :: rat) - 1"
      using assms(2) by (metis of_int_1 of_int_diff of_int_le_iff zle_diff1_eq)
    then have "q \<le> 1 - 1 / of_int b"
      using b by (simp add: q_def field_simps)
    also have "\<dots> \<le> 1 - 1 / 2 ^ 53"
    proof -
      have "(of_int b :: rat) \<le> of_int (2 ^ 53)" using that by (simp only: of_int_le_iff)
      then have "1 / (2::rat) ^ 53 \<le> 1 / of_int b"
        using b by (simp add: frac_le)
      then show ?thesis by simp
    qed
    also have "\<dots> = of_int (2 ^ 53 - 1) * 2 powi (- 53)"
      by (simp add: power_int_minus field_simps)
    finally have "\<bar>q\<bar> \<le> of_int (2 ^ 53 - 1) * 2 powi (- 53)" using q0 by simp
    then have "\<bar>round_to_grid q\<bar> \<le> of_int (2 ^ 53 - 1) * 2 powi (- 53)"
      by (rule round_to_grid_abs_le) simp_all
    also have "\<dots> < 1" by (simp add: power_int_minus field_simps)
    finally show ?thesis by simp
  qed
  show ?thesis
    using b lo hi fin strict by (simp add: int_truediv_def q_def)
qed

lemma int_truediv_mod:
  assumes "b \<noteq> 0"
  shows "\<exists>v. int_truediv (a mod b) b = Inr (Finite v)"
proof -
  define q :: rat where "q = of_int (a mod b) / of_int b"
  have "\<bar>a mod b\<bar> < \<bar>b\<bar>" using assms by (rule abs_mod_less)
  then have "\<bar>rat_of_int (a mod b)\<bar> < \<bar>of_int b\<bar>"
    by (simp only: of_int_less_iff flip: of_int_abs)
  then have "\<bar>q\<bar> \<le> 1" using assms by (simp add: q_def)
  then have "round_to_double q = Finite (round_to_grid q)"
    by (intro round_to_double_below_2_1023) simp
  then show ?thesis using assms by (simp add: int_truediv_def q_def)
qed

lemma round_to_double_nonneg:
  assumes "0 \<le> q"
  shows "float_le (Finite 0) (round_to_double q)"
  using round_to_grid_nonneg [OF assms]
  by (simp add: round_to_double_def Let_def)

lemma round_to_double_pos:
  assumes "0 < q" and "q = of_int m * 2 powi (- 1074)"
  shows "float_lt (Finite 0) (round_to_double q)"
  using round_to_grid_pos_on_grid [OF assms]
  by (simp add: round_to_double_def Let_def)

lemma round_to_double_mono:
  assumes "q1 \<le> q2"
  shows "float_le (round_to_double q1) (round_to_double q2)"
  using round_to_grid_mono [OF assms]
  by (simp add: round_to_double_def Let_def)

lemma round_to_grid_repr:
  assumes "x \<noteq> 0"
  shows "\<exists>m. round_to_grid x = of_int m * 2 powi quantum_exponent x \<and> \<bar>m\<bar> \<le> 2 ^ 53"
proof -
  define P where "P = quantum_exponent x"
  define e where "e = ilog2 \<bar>x\<bar>"
  have P: "P = max (e - 52) (- 1074)" by (simp add: P_def e_def quantum_exponent_def)
  have pos: "0 < \<bar>x\<bar>" using assms by simp
  have "\<bar>x\<bar> < 2 powi (e + 1)" unfolding e_def using pos by (rule ilog2_bounds)
  also have "\<dots> \<le> 2 powi (P + 53)"
    using P by (intro power_int_increasing) simp_all
  also have "\<dots> = of_int (2 ^ 53) * 2 powi P"
    using power_int_add [of "2::rat" P 53] by simp
  finally have "\<bar>x\<bar> / 2 powi P \<le> of_int (2 ^ 53)"
    by (simp add: pos_divide_le_eq)
  moreover have "\<bar>x / 2 powi P\<bar> = \<bar>x\<bar> / 2 powi P"
    by (simp add: abs_divide)
  ultimately have "\<bar>x / 2 powi P\<bar> \<le> of_int (2 ^ 53)" by simp
  then have "x / 2 powi P \<le> of_int (2 ^ 53)" and "of_int (- (2 ^ 53)) \<le> x / 2 powi P"
    by (simp_all only: abs_le_iff of_int_minus) linarith+
  then have "round_half_even (x / 2 powi P) \<le> 2 ^ 53"
    and "- (2 ^ 53) \<le> round_half_even (x / 2 powi P)"
    by (auto intro: round_half_even_le round_half_even_ge)
  then have "\<bar>round_half_even (x / 2 powi P)\<bar> \<le> 2 ^ 53" by simp
  then show ?thesis
    using assms by (auto simp add: round_to_grid_def P_def)
qed

lemma round_to_grid_sub_exact:
  assumes n: "0 \<le> n" and le: "of_int n \<le> round_to_grid x" and bound: "round_to_grid x \<le> 2 ^ 53"
  shows "round_to_grid (round_to_grid x - of_int n) = round_to_grid x - of_int n"
proof (cases "x = 0")
  case True
  with le n have "n = 0" by (simp add: round_to_grid_def)
  with True show ?thesis by (simp add: round_to_grid_def)
next
  case False
  define P where "P = quantum_exponent x"
  from round_to_grid_repr [OF False] obtain m where
    v: "round_to_grid x = of_int m * 2 powi P" and m: "\<bar>m\<bar> \<le> 2 ^ 53"
    by (auto simp add: P_def)
  have Pg: "- 1074 \<le> P" by (simp add: P_def quantum_exponent_ge)
  show ?thesis
  proof (cases "0 \<le> P")
    case True
    from powi2_split [OF True] have "round_to_grid x = of_int (m * 2 ^ nat P)"
      by (simp add: v)
    then have eq: "round_to_grid x - of_int n = of_int (m * 2 ^ nat P - n)" by simp
    have "rat_of_int (m * 2 ^ nat P - n) \<le> of_int (2 ^ 53)"
      using bound n unfolding eq [symmetric] by simp
    then have "m * 2 ^ nat P - n \<le> 2 ^ 53" by (simp only: of_int_le_iff)
    moreover have "rat_of_int 0 \<le> of_int (m * 2 ^ nat P - n)"
      using le unfolding eq [symmetric] by simp
    then have "0 \<le> m * 2 ^ nat P - n" by (simp only: of_int_le_iff)
    ultimately have "\<bar>m * 2 ^ nat P - n\<bar> \<le> 2 ^ 53" by simp
    then show ?thesis unfolding eq by (rule round_to_grid_of_int)
  next
    case False
    then have "P \<le> 0" by simp
    from powi2_split [OF this] have one: "(1::rat) = of_int (2 ^ nat (- P)) * 2 powi P"
      by simp
    have "of_int n = of_int n * (1::rat)" by simp
    also have "\<dots> = of_int (n * 2 ^ nat (- P)) * 2 powi P"
      by (subst one) simp
    finally have eq: "round_to_grid x - of_int n = of_int (m - n * 2 ^ nat (- P)) * 2 powi P"
      by (simp add: v algebra_simps)
    have pos: "0 < (2::rat) powi P" by simp
    have "0 \<le> rat_of_int (m - n * 2 ^ nat (- P)) * 2 powi P"
      using le unfolding eq [symmetric] by simp
    then have "0 \<le> rat_of_int (m - n * 2 ^ nat (- P))"
      using pos by (simp add: zero_le_mult_iff)
    then have k0: "0 \<le> m - n * 2 ^ nat (- P)" by (simp only: of_int_0_le_iff)
    have "m - n * 2 ^ nat (- P) \<le> m" using n by simp
    with k0 m have "\<bar>m - n * 2 ^ nat (- P)\<bar> \<le> 2 ^ 53" by simp
    with Pg show ?thesis unfolding eq by (rule round_to_grid_exact)
  qed
qed

lemma round_to_double_sub_exact:
  assumes "0 \<le> n" and "of_int n \<le> round_to_grid x" and "round_to_grid x \<le> 2 ^ 53"
  shows "round_to_double (round_to_grid x - of_int n) = Finite (round_to_grid x - of_int n)"
proof -
  have "\<bar>round_to_grid x - of_int n\<bar> \<le> 2 ^ 53" using assms by simp
  then have "\<bar>round_to_grid x - of_int n\<bar> \<le> 2 ^ 1023" by simp
  then show ?thesis
    using round_to_grid_sub_exact [OF assms] by (simp add: round_to_double_below_2_1023)
qed

lemma round_to_double_shape:
  "round_to_double q = PosInf \<or> round_to_double q = NegInf
   \<or> round_to_double q = Finite (round_to_grid q)"
  by (simp add: round_to_double_def Let_def)

lemma round_to_double_Finite_bound:
  "round_to_double q = Finite v \<Longrightarrow> \<bar>v\<bar> < 2 ^ 1024"
  by (auto simp add: round_to_double_def Let_def split: if_splits)

lemma float_of_int_Inr:
  assumes "float_of_int i = Inr x"
  shows "\<exists>v. x = Finite v \<and> \<bar>v\<bar> < 2 ^ 1024"
proof (cases "round_to_double (of_int i)")
  case (Finite v)
  then have "\<bar>v\<bar> < 2 ^ 1024" by (rule round_to_double_Finite_bound)
  moreover have "x = Finite v" using assms Finite by (simp add: float_of_int_def)
  ultimately show ?thesis by blast
qed (use assms in \<open>simp_all add: float_of_int_def\<close>)

lemma float_add_Finite_shape:
  "float_add (Finite b) (round_to_double z) = PosInf
   \<or> float_add (Finite b) (round_to_double z) = NegInf
   \<or> (\<exists>q. float_add (Finite b) (round_to_double z) = Finite (round_to_grid q))"
proof -
  consider "round_to_double z = PosInf" | "round_to_double z = NegInf"
    | "round_to_double z = Finite (round_to_grid z)"
    using round_to_double_shape [of z] by blast
  then show ?thesis
  proof cases
    case 3
    then show ?thesis
      using round_to_double_shape [of "b + round_to_grid z"] by auto
  qed simp_all
qed


lemma grid_minus_int:
  "\<exists>m. round_to_grid q - of_int n = of_int m * 2 powi (- 1074)"
proof -
  obtain m where m: "round_to_grid q = of_int m * 2 powi (- 1074)"
    using round_to_grid_on_grid by blast
  have "(1::rat) = of_int (2 ^ 1074) * 2 powi (- 1074)"
    using powi2_split [of "- 1074" 0] by simp
  then have "rat_of_int n = of_int n * (of_int (2 ^ 1074) * 2 powi (- 1074))" by simp
  then have "round_to_grid q - of_int n = of_int (m - n * 2 ^ 1074) * 2 powi (- 1074)"
    unfolding m by (simp add: algebra_simps)
  then show ?thesis by blast
qed


subsection \<open>Evaluation of the rounding\<close>

text \<open>
  The rounding of a given number is settled by its binary exponent and by the integer
  that its scaled value rounds to.
\<close>

lemma floor_rat_numeral: "\<lfloor>numeral a / numeral b :: rat\<rfloor> = numeral a div numeral b"
  by (metis floor_divide_of_int_eq of_int_numeral)

lemma round_to_double_eval:
  assumes "2 powi e \<le> \<bar>q\<bar>" and "\<bar>q\<bar> < 2 powi (e + 1)"
    and "P = max (e - 52) (- 1074)"
    and "round_half_even (q / 2 powi P) = m"
    and "\<bar>of_int m * (2::rat) powi P\<bar> < 2 ^ 1024"
  shows "round_to_double q = Finite (of_int m * 2 powi P)"
proof -
  have "ilog2 \<bar>q\<bar> = e" using assms(1,2) by (rule ilog2_unique)
  moreover have "0 < (2::rat) powi e" by simp
  with assms(1) have "0 < \<bar>q\<bar>" by linarith
  then have "q \<noteq> 0" by simp
  ultimately have "round_to_grid q = of_int m * 2 powi P"
    using assms(3,4) by (simp add: round_to_grid_def quantum_exponent_def)
  with assms(5) show ?thesis
    using round_to_double_bounded [of q] by simp
qed


lemma round_to_double_numeral:
  assumes "(numeral n :: int) \<le> 2 ^ 53"
  shows "round_to_double (numeral n) = Finite (numeral n)"
  using round_to_double_of_int [of "numeral n"] assms by simp

lemma round_to_double_0: "round_to_double 0 = Finite 0"
  using round_to_double_of_int [of 0] by simp

lemma round_to_double_1: "round_to_double 1 = Finite 1"
  using round_to_double_of_int [of 1] by simp

lemma round_to_double_exact:
  assumes "- 1074 \<le> s" and "\<bar>k\<bar> \<le> 2 ^ 53" and "\<bar>of_int k * (2::rat) powi s\<bar> \<le> 2 ^ 1023"
  shows "round_to_double (of_int k * 2 powi s) = Finite (of_int k * 2 powi s)"
  using round_to_grid_exact [OF assms(1,2)] assms(3)
  by (simp add: round_to_double_below_2_1023)

lemma float_of_int_scaled:
  assumes "i = k * 2 ^ s" and "\<bar>k\<bar> \<le> 2 ^ 53" and "\<bar>i\<bar> \<le> 2 ^ 1023"
  shows "float_of_int i = Inr (Finite (of_int i))"
proof -
  have eq: "rat_of_int i = of_int k * 2 powi int s" by (simp add: assms(1))
  have "\<bar>rat_of_int i\<bar> \<le> of_int (2 ^ 1023)"
    using assms(3) by (simp only: of_int_le_iff flip: of_int_abs)
  then have "\<bar>of_int k * (2::rat) powi int s\<bar> \<le> 2 ^ 1023" by (simp add: eq)
  then have "round_to_double (of_int k * 2 powi int s) = Finite (of_int k * 2 powi int s)"
    using assms(2) by (intro round_to_double_exact) simp_all
  then show ?thesis by (simp add: float_of_int_def eq)
qed

section \<open>Properties of the epoch calculator\<close>

lemma round_to_double_below_one: "round_to_double (1152921504606846975 / 1152921504606846976) = Finite 1"
  using round_to_double_eval [of "- 1" "1152921504606846975 / 1152921504606846976" "- 53"
          9007199254740992]
  by (simp add: round_half_even_def Let_def power_int_minus floor_rat_numeral)

text \<open>
  C1, as stated, fails. With the current block \<open>2^60 - 1\<close> and the epoch length \<open>2^60\<close>
  the quotient of the elapsed blocks by the epoch length is \<open>1 - 2^-60\<close>; the nearest
  double is 1, so \<^verbatim>\<open>percent_complete\<close> is \<^verbatim>\<open>1.0\<close>, which is not below 1.
\<close>

theorem get_epoch_data_counterexample:
  "get_epoch_data 6 1152921504606846975 1152921504606846976 =
     Inr \<lparr> block = 1152921504606846975,
           epoch = 0,
           block_per_epoch = 1152921504606846976,
           seconds_per_epoch = 6917529027641081856,
           percent_complete = Finite 1,
           blocks_elapsed = 1152921504606846975,
           blocks_remaining = 1,
           seconds_elapsed = 6917529027641081850,
           seconds_remaining = 6 \<rparr>"
  using round_to_double_below_one by (simp add: get_epoch_data_def int_truediv_def Let_def)

text \<open>
  C1, amended. For every current block and every positive epoch length,
  \<^verbatim>\<open>get_epoch_data\<close> returns a record in which the elapsed and the remaining blocks add
  up to the epoch length and \<^verbatim>\<open>percent_complete\<close> is the float that
  \<^verbatim>\<open>blocks_elapsed / epoch_length\<close> evaluates to: a finite double, at least 0 and at
  most 1, and below 1 whenever the epoch length is at most \<open>2^53\<close>.
\<close>

theorem get_epoch_data_invariant:
  assumes "0 < epoch_length"
  shows "\<exists>d v. get_epoch_data BLOCK_SECS current_block epoch_length = Inr d
           \<and> blocks_elapsed d + blocks_remaining d = epoch_length
           \<and> int_truediv (blocks_elapsed d) epoch_length = Inr (percent_complete d)
           \<and> percent_complete d = Finite v
           \<and> 0 \<le> v \<and> v \<le> 1
           \<and> (epoch_length \<le> 2 ^ 53 \<longrightarrow> v < 1)"
proof -
  let ?e = "current_block mod epoch_length"
  have "0 \<le> ?e" and "?e < epoch_length"
    using assms by simp_all
  from int_truediv_unit [OF this] obtain v where
    "int_truediv ?e epoch_length = Inr (Finite v)" "0 \<le> v" "v \<le> 1"
    "epoch_length \<le> 2 ^ 53 \<longrightarrow> v < 1"
    by blast
  then show ?thesis
    using assms by (simp add: get_epoch_data_def Let_def)
qed

theorem get_epoch_data_invariant_witness:
  "(0::int) < 100 \<and>
   (\<exists>d v. get_epoch_data 6 175 100 = Inr d
      \<and> blocks_elapsed d + blocks_remaining d = 100
      \<and> int_truediv (blocks_elapsed d) 100 = Inr (percent_complete d)
      \<and> percent_complete d = Finite v
      \<and> 0 \<le> v \<and> v \<le> 1
      \<and> (100::int) \<le> 2 ^ 53 \<and> v < 1)"
  using get_epoch_data_invariant [of 100 6 175] by simp

text \<open>
  C2. For a positive epoch length: before the slot, \<^verbatim>\<open>get_subnet_epoch_data\<close> returns
  the zero record, whose epoch is 0 and whose remaining blocks are the epoch length; from
  the slot on, it returns what \<^verbatim>\<open>get_epoch_data\<close> returns for \<^verbatim>\<open>current_block - slot\<close>,
  with the field \<^verbatim>\<open>block\<close> set to the original current block.
\<close>

theorem get_subnet_epoch_data_cases:
  assumes "0 < epoch_length"
  shows "(current_block < slot \<longrightarrow>
            get_subnet_epoch_data BLOCK_SECS current_block epoch_length slot
              = Inr (EpochData_zero BLOCK_SECS current_block epoch_length)
            \<and> epoch (EpochData_zero BLOCK_SECS current_block epoch_length) = 0
            \<and> blocks_remaining (EpochData_zero BLOCK_SECS current_block epoch_length)
                = epoch_length)
       \<and> (slot \<le> current_block \<longrightarrow>
            (\<exists>d. get_epoch_data BLOCK_SECS (current_block - slot) epoch_length = Inr d
               \<and> get_subnet_epoch_data BLOCK_SECS current_block epoch_length slot
                   = Inr (d\<lparr>block := current_block\<rparr>)))"
proof -
  from assms have "epoch_length \<noteq> 0" by simp
  from int_truediv_mod [OF this, of "current_block - slot"] obtain v where
    "int_truediv ((current_block - slot) mod epoch_length) epoch_length = Inr (Finite v)"
    by blast
  then show ?thesis
    using assms
    by (simp add: get_subnet_epoch_data_def get_epoch_data_def EpochData_zero_def Let_def)
qed

theorem get_subnet_epoch_data_cases_witness:
  "(0::int) < 100
   \<and> (30::int) < 50
   \<and> get_subnet_epoch_data 6 30 100 50 = Inr (EpochData_zero 6 30 100)
   \<and> epoch (EpochData_zero 6 30 100) = 0
   \<and> blocks_remaining (EpochData_zero 6 30 100) = 100
   \<and> (50::int) \<le> 175
   \<and> (\<exists>d. get_epoch_data 6 (175 - 50) 100 = Inr d
          \<and> get_subnet_epoch_data 6 175 100 50 = Inr (d\<lparr>block := 175\<rparr>))"
  using get_subnet_epoch_data_cases [of 100 30 50 6]
        get_subnet_epoch_data_cases [of 100 175 50 6]
  by simp

subsection \<open>The overwatch cutoff\<close>

text \<open>
  The cutoff block is never a NaN: it is an infinity or a double that a rounding
  produced. \<^verbatim>\<open>cutoff_percentage\<close> is always finite.
\<close>

lemma cutoff_percentage_finite:
  assumes "\<bar>v\<bar> < 2 ^ 1024"
  shows "float_truediv (Finite v) (Finite (10 ^ 18)) = Inr (Finite (round_to_grid (v / 10 ^ 18)))"
proof -
  have "\<bar>v / 10 ^ 18\<bar> = \<bar>v\<bar> / 10 ^ 18" by (simp add: abs_divide)
  also have "\<dots> \<le> 2 ^ 1024 / 2" using assms by simp
  also have "\<dots> = (2::rat) ^ 1023" by simp
  finally have "round_to_double (v / 10 ^ 18) = Finite (round_to_grid (v / 10 ^ 18))"
    by (rule round_to_double_below_2_1023)
  then show ?thesis by simp
qed

lemma overwatch_epoch_cutoff_block_shape:
  assumes "overwatch_epoch_cutoff_block current_block epoch_length multiplier cutoff_percent = Inr c"
  shows "c = PosInf \<or> c = NegInf \<or> (\<exists>q. c = Finite (round_to_grid q))"
proof -
  from assms obtain cpf where cpf: "float_of_int cutoff_percent = Inr cpf"
    by (auto simp add: overwatch_epoch_cutoff_block_def Let_def split: sum.splits)
  then obtain v where v: "cpf = Finite v" "\<bar>v\<bar> < 2 ^ 1024"
    using float_of_int_Inr by blast
  note pct = cutoff_percentage_finite [OF v(2)]
  from assms cpf v pct obtain olf
    where olf: "float_of_int (epoch_length * multiplier) = Inr olf"
    by (auto simp add: overwatch_epoch_cutoff_block_def Let_def split: sum.splits)
  then obtain ol where ol: "olf = Finite ol"
    using float_of_int_Inr by blast
  from assms cpf v pct olf ol obtain bf
    where bf: "float_of_int (epoch_length * multiplier * (current_block div epoch_length)) = Inr bf"
    by (auto simp add: overwatch_epoch_cutoff_block_def Let_def split: sum.splits)
  then obtain b where b: "bf = Finite b"
    using float_of_int_Inr by blast
  have "c = float_add (Finite b) (round_to_double (ol * round_to_grid (v / 10 ^ 18)))"
    using assms cpf v pct olf ol bf b
    by (simp add: overwatch_epoch_cutoff_block_def Let_def)
  then show ?thesis
    using float_add_Finite_shape [of b "ol * round_to_grid (v / 10 ^ 18)"] by simp
qed

lemma overwatch_epoch_cutoff_block_same_epoch:
  assumes "later_block div epoch_length = current_block div epoch_length"
  shows "overwatch_epoch_cutoff_block later_block epoch_length multiplier cutoff_percent
         = overwatch_epoch_cutoff_block current_block epoch_length multiplier cutoff_percent"
  using assms by (simp add: overwatch_epoch_cutoff_block_def)

lemma reveal_value:
  assumes "overwatch_epoch_cutoff_block current_block epoch_length multiplier cutoff_percent = Inr c"
    and "\<bar>current_block\<bar> \<le> 2 ^ 53"
  shows "overwatch_seconds_remaining_until_reveal current_block epoch_length multiplier cutoff_percent
         = Inr (if int_gt_float current_block c then Finite 0
                else float_sub c (Finite (of_int current_block)))"
  using assms float_of_int_exact [OF assms(2)]
  by (simp add: overwatch_seconds_remaining_until_reveal_def)

text \<open>
  The sign of the float \<^verbatim>\<open>c - n\<close> for a cutoff \<open>c\<close> and a block number \<open>n\<close> that a
  double holds exactly and that is not past the cutoff.
\<close>

lemma reveal_sub_sign:
  assumes shape: "c = PosInf \<or> c = NegInf \<or> (\<exists>q. c = Finite (round_to_grid q))"
    and "\<not> int_gt_float n c"
  shows "float_le (Finite 0) (float_sub c (Finite (of_int n)))"
    and "float_lt (Finite 0) (float_sub c (Finite (of_int n))) \<longleftrightarrow> int_lt_float n c"
proof -
  consider "c = PosInf" | "c = NegInf" | q where "c = Finite (round_to_grid q)"
    using shape by blast
  then have "float_le (Finite 0) (float_sub c (Finite (of_int n)))
     \<and> (float_lt (Finite 0) (float_sub c (Finite (of_int n))) \<longleftrightarrow> int_lt_float n c)"
  proof cases
    case 1
    then show ?thesis by (simp add: float_sub_def)
  next
    case 2
    with assms(2) show ?thesis by simp
  next
    case 3
    with assms(2) have le: "of_int n \<le> round_to_grid q" by simp
    have sub: "float_sub c (Finite (of_int n)) = round_to_double (round_to_grid q - of_int n)"
      using 3 by (simp add: float_sub_def)
    have nonneg: "float_le (Finite 0) (round_to_double (round_to_grid q - of_int n))"
      using le by (intro round_to_double_nonneg) simp
    have pos: "float_lt (Finite 0) (round_to_double (round_to_grid q - of_int n))"
      if "of_int n < round_to_grid q"
    proof -
      obtain m where "round_to_grid q - of_int n = of_int m * 2 powi (- 1074)"
        using grid_minus_int by blast
      moreover have "0 < round_to_grid q - of_int n" using that by simp
      ultimately show ?thesis by (intro round_to_double_pos)
    qed
    have zero: "\<not> float_lt (Finite 0) (round_to_double (round_to_grid q - of_int n))"
      if "of_int n = round_to_grid q"
      using that by (simp add: round_to_double_def round_to_grid_def)
    show ?thesis
      using 3 le nonneg pos zero unfolding sub by (cases "of_int n = round_to_grid q") auto
  qed
  then show "float_le (Finite 0) (float_sub c (Finite (of_int n)))"
    and "float_lt (Finite 0) (float_sub c (Finite (of_int n))) \<longleftrightarrow> int_lt_float n c"
    by simp_all
qed

lemma get_epoch_data_fields:
  assumes "epoch_length \<noteq> 0"
  shows "\<exists>d. get_epoch_data BLOCK_SECS current_block epoch_length = Inr d
           \<and> block d = current_block \<and> epoch d = current_block div epoch_length
           \<and> block_per_epoch d = epoch_length"
proof -
  from int_truediv_mod [OF assms, of current_block] obtain v where
    "int_truediv (current_block mod epoch_length) epoch_length = Inr (Finite v)"
    by blast
  then show ?thesis
    using assms by (simp add: get_epoch_data_def Let_def)
qed

lemma in_overwatch_commit_period_cutoff:
  assumes "epoch_length \<noteq> 0"
  shows "in_overwatch_commit_period BLOCK_SECS current_block epoch_length multiplier cutoff_percent
         = (case overwatch_epoch_cutoff_block current_block epoch_length multiplier
                   cutoff_percent of
              Inl e \<Rightarrow> Inl e
            | Inr c \<Rightarrow> Inr (int_lt_float current_block c))"
proof -
  from get_epoch_data_fields [OF assms, of BLOCK_SECS current_block] obtain d where
    "get_epoch_data BLOCK_SECS current_block epoch_length = Inr d"
    "block d = current_block" "epoch d = current_block div epoch_length"
    "block_per_epoch d = epoch_length"
    by blast
  then show ?thesis
    by (simp add: in_overwatch_commit_period_def overwatch_epoch_cutoff_block_def Let_def
          split: sum.splits)
qed


lemma float_of_int_5e17: "float_of_int 500000000000000000 = Inr (Finite 500000000000000000)"
  using float_of_int_scaled [of 500000000000000000 3814697265625 17] by simp

lemma round_to_double_half: "round_to_double (1 / 2) = Finite (1 / 2)"
  using round_to_double_exact [of "- 1" 1] by (simp add: power_int_minus)

lemma float_of_int_1e18: "float_of_int 1000000000000000000 = Inr (Finite 1000000000000000000)"
  using float_of_int_scaled [of 1000000000000000000 3814697265625 18] by simp

lemma float_of_int_2_53_4: "float_of_int 9007199254740996 = Inr (Finite 9007199254740996)"
  using float_of_int_scaled [of 9007199254740996 2251799813685249 2] by simp

lemma round_to_double_2_53_4: "round_to_double 9007199254740996 = Finite 9007199254740996"
  using float_of_int_2_53_4 by (simp add: float_of_int_def split: double.splits)

lemma float_of_int_2_53_3: "float_of_int 9007199254740995 = Inr (Finite 9007199254740996)"
  using round_to_double_eval [of 53 9007199254740995 1 4503599627370498]
  by (simp add: float_of_int_def round_half_even_def Let_def floor_rat_numeral)


lemmas overwatch_eval = float_of_int_5e17 round_to_double_half round_to_double_numeral round_to_double_0
  round_to_double_1 float_of_int_exact overwatch_epoch_cutoff_block_def
  overwatch_seconds_remaining_until_reveal_def float_sub_def Let_def


text \<open>
  C3, as stated, fails. With epoch length 10, multiplier 1 and cutoff percent
  \<open>5 * 10^17\<close> (one half; all the floats here are exact) the cutoff block of block 5 is
  5: the block is not past the cutoff, and the value is 0, not positive. The blocks 4
  and 10 are both before their cutoff blocks (5 and 15), and the value goes up from 1
  to 5.
\<close>

theorem overwatch_reveal_counterexample:
  "overwatch_epoch_cutoff_block 5 10 1 500000000000000000 = Inr (Finite 5)
   \<and> overwatch_seconds_remaining_until_reveal 5 10 1 500000000000000000 = Inr (Finite 0)
   \<and> overwatch_epoch_cutoff_block 4 10 1 500000000000000000 = Inr (Finite 5)
   \<and> overwatch_seconds_remaining_until_reveal 4 10 1 500000000000000000 = Inr (Finite 1)
   \<and> overwatch_epoch_cutoff_block 10 10 1 500000000000000000 = Inr (Finite 15)
   \<and> overwatch_seconds_remaining_until_reveal 10 10 1 500000000000000000 = Inr (Finite 5)"
  by (simp add: overwatch_eval)

text \<open>
  C3, amended. In the arithmetic of \<^verbatim>\<open>get_overwatch_epoch_data\<close>, for an epoch length
  other than 0, block numbers of magnitude at most \<open>2^53\<close> (which floats hold exactly)
  and a cutoff block whose computation does not raise:
  \<^verbatim>\<open>seconds_remaining_until_reveal\<close> is 0 whenever the current block is past the cutoff
  block; it is never negative, and it is positive exactly when the current block is
  before the cutoff block. Between two blocks of the same base epoch (which have the
  same cutoff block) it does not grow; it falls when the earlier block is not negative
  and before the cutoff block, and the cutoff block is at most \<open>2^53\<close>.
\<close>

theorem overwatch_reveal_amended:
  assumes el: "epoch_length \<noteq> 0"
    and cb: "\<bar>current_block\<bar> \<le> 2 ^ 53"
    and lb: "\<bar>later_block\<bar> \<le> 2 ^ 53"
    and cut: "overwatch_epoch_cutoff_block current_block epoch_length multiplier cutoff_percent
                = Inr cutoff"
  shows "\<exists>r. overwatch_seconds_remaining_until_reveal
                current_block epoch_length multiplier cutoff_percent = Inr r
           \<and> (int_gt_float current_block cutoff \<longrightarrow> r = Finite 0)
           \<and> float_le (Finite 0) r
           \<and> (float_lt (Finite 0) r \<longleftrightarrow> int_lt_float current_block cutoff)
           \<and> (current_block < later_block
                \<and> later_block div epoch_length = current_block div epoch_length
              \<longrightarrow> (\<exists>r'. overwatch_seconds_remaining_until_reveal
                           later_block epoch_length multiplier cutoff_percent = Inr r'
                      \<and> float_le r' r
                      \<and> (0 \<le> current_block \<and> int_lt_float current_block cutoff
                           \<and> float_le cutoff (Finite (2 ^ 53))
                         \<longrightarrow> float_lt r' r)))"
proof -
  define r where "r = (if int_gt_float current_block cutoff then Finite 0
                       else float_sub cutoff (Finite (of_int current_block)))"
  define r' where "r' = (if int_gt_float later_block cutoff then Finite 0
                       else float_sub cutoff (Finite (of_int later_block)))"
  note shape = overwatch_epoch_cutoff_block_shape [OF cut]
  have val: "overwatch_seconds_remaining_until_reveal
               current_block epoch_length multiplier cutoff_percent = Inr r"
    unfolding r_def using cut cb by (rule reveal_value)
  have past: "int_gt_float current_block cutoff \<longrightarrow> r = Finite 0"
    by (simp add: r_def)
  have nonneg: "float_le (Finite 0) r"
    using reveal_sub_sign(1) [OF shape] by (simp add: r_def)
  have pos: "float_lt (Finite 0) r \<longleftrightarrow> int_lt_float current_block cutoff"
  proof (cases "int_gt_float current_block cutoff")
    case True
    then have "\<not> int_lt_float current_block cutoff"
      by (cases cutoff) simp_all
    with True show ?thesis by (simp add: r_def)
  next
    case False
    then show ?thesis
      using reveal_sub_sign(2) [OF shape] by (simp add: r_def)
  qed
  have later: "\<exists>r'. overwatch_seconds_remaining_until_reveal
                           later_block epoch_length multiplier cutoff_percent = Inr r'
                      \<and> float_le r' r
                      \<and> (0 \<le> current_block \<and> int_lt_float current_block cutoff
                           \<and> float_le cutoff (Finite (2 ^ 53))
                         \<longrightarrow> float_lt r' r)"
    if less: "current_block < later_block"
      and same: "later_block div epoch_length = current_block div epoch_length"
  proof -
    have "overwatch_epoch_cutoff_block later_block epoch_length multiplier cutoff_percent
            = Inr cutoff"
      using cut overwatch_epoch_cutoff_block_same_epoch [OF same] by simp
    then have val': "overwatch_seconds_remaining_until_reveal
               later_block epoch_length multiplier cutoff_percent = Inr r'"
      unfolding r'_def using lb by (rule reveal_value)
    have nonneg': "float_le (Finite 0) r'"
      using reveal_sub_sign(1) [OF shape] by (simp add: r'_def)
    have rless: "rat_of_int current_block < of_int later_block"
      using less by (simp only: of_int_less_iff)
    consider "cutoff = PosInf" | "cutoff = NegInf" | q where "cutoff = Finite (round_to_grid q)"
      using shape by blast
    then have "float_le r' r
                \<and> (0 \<le> current_block \<and> int_lt_float current_block cutoff
                     \<and> float_le cutoff (Finite (2 ^ 53))
                   \<longrightarrow> float_lt r' r)"
    proof cases
      case 1
      then show ?thesis by (simp add: r_def r'_def float_sub_def)
    next
      case 2
      then show ?thesis by (simp add: r_def r'_def)
    next
      case 3
      let ?v = "round_to_grid q"
      have r: "r = (if ?v < of_int current_block then Finite 0
                    else round_to_double (?v - of_int current_block))"
        by (simp add: r_def 3 float_sub_def)
      have r': "r' = (if ?v < of_int later_block then Finite 0
                    else round_to_double (?v - of_int later_block))"
        by (simp add: r'_def 3 float_sub_def)
      have le: "float_le r' r"
      proof (cases "?v < of_int later_block")
        case True
        then have "r' = Finite 0" by (simp add: r')
        with nonneg show ?thesis by simp
      next
        case False
        with rless have "\<not> ?v < of_int current_block" by simp
        moreover have "?v - of_int later_block \<le> ?v - of_int current_block"
          using rless by simp
        then have "float_le (round_to_double (?v - of_int later_block))
                     (round_to_double (?v - of_int current_block))"
          by (rule round_to_double_mono)
        ultimately show ?thesis using False by (simp add: r r')
      qed
      have strict: "float_lt r' r"
        if "0 \<le> current_block" and "of_int current_block < ?v" and "?v \<le> 2 ^ 53"
      proof -
        have "round_to_double (?v - of_int current_block) = Finite (?v - of_int current_block)"
          using that by (intro round_to_double_sub_exact) simp_all
        then have rv: "r = Finite (?v - of_int current_block)"
          using that by (simp add: r)
        show ?thesis
        proof (cases "?v < of_int later_block")
          case True
          then show ?thesis using that by (simp add: r' rv)
        next
          case False
          have "0 \<le> later_block" using that(1) less by simp
          then have "round_to_double (?v - of_int later_block) = Finite (?v - of_int later_block)"
            using False that by (intro round_to_double_sub_exact) simp_all
          then show ?thesis using False rless by (simp add: r' rv)
        qed
      qed
      show ?thesis using le strict by (simp add: 3)
    qed
    with val' show ?thesis by blast
  qed
  show ?thesis
    using val past nonneg pos later by blast
qed

theorem overwatch_reveal_amended_witness:
  "(10::int) \<noteq> 0 \<and> \<bar>3::int\<bar> \<le> 2 ^ 53 \<and> \<bar>4::int\<bar> \<le> 2 ^ 53 \<and> \<bar>7::int\<bar> \<le> 2 ^ 53
   \<and> overwatch_epoch_cutoff_block 3 10 1 500000000000000000 = Inr (Finite 5)
   \<and> overwatch_epoch_cutoff_block 7 10 1 500000000000000000 = Inr (Finite 5)
   \<and> overwatch_seconds_remaining_until_reveal 7 10 1 500000000000000000 = Inr (Finite 0)
   \<and> (\<exists>r r'. overwatch_seconds_remaining_until_reveal 3 10 1 500000000000000000 = Inr r
         \<and> overwatch_seconds_remaining_until_reveal 4 10 1 500000000000000000 = Inr r'
         \<and> float_lt (Finite 0) r \<and> float_le r' r \<and> float_lt r' r)"
  using overwatch_reveal_amended [of 10 7 8 1 500000000000000000 "Finite 5"]
        overwatch_reveal_amended [of 10 3 4 1 500000000000000000 "Finite 5"]
  by (simp add: overwatch_eval)

text \<open>
  Where the block number is not negative, not past the cutoff block, and the cutoff block
  is at most \<open>2^53\<close>, the value is the exact distance to the cutoff block in blocks:
  \<^verbatim>\<open>BLOCK_SECS\<close> does not enter it.
\<close>

lemma overwatch_reveal_is_block_gap:
  assumes "overwatch_epoch_cutoff_block current_block epoch_length multiplier cutoff_percent
             = Inr (Finite c)"
    and "0 \<le> current_block" and "of_int current_block \<le> c" and "c \<le> 2 ^ 53"
  shows "overwatch_seconds_remaining_until_reveal current_block epoch_length multiplier
           cutoff_percent
         = Inr (Finite (c - of_int current_block))"
proof -
  from overwatch_epoch_cutoff_block_shape [OF assms(1)] obtain q where c: "c = round_to_grid q"
    by auto
  have "rat_of_int current_block \<le> 2 ^ 53" using assms(3,4) by simp
  then have "rat_of_int current_block \<le> of_int (2 ^ 53)" by simp
  then have "current_block \<le> 2 ^ 53" by (simp only: of_int_le_iff)
  then have "\<bar>current_block\<bar> \<le> 2 ^ 53" using assms(2) by simp
  from reveal_value [OF assms(1) this]
    round_to_double_sub_exact [of current_block q] assms(2,3,4)
  show ?thesis by (simp add: c float_sub_def)
qed

text \<open>
  C6. \<^verbatim>\<open>get_overwatch_epoch_data\<close> does not return a record: with the block 175, the
  epoch length 100, the multiplier 2 and the cutoff percent \<open>5 * 10^17\<close> the call of the
  constructor raises \<^verbatim>\<open>TypeError\<close>, since the keyword \<^verbatim>\<open>overwatch_epoch\<close> is missing.
\<close>

theorem get_overwatch_epoch_data_raises:
  "get_overwatch_epoch_data 6 175 100 2 500000000000000000 = Inl TypeError"
proof -
  obtain v where "int_truediv (175 mod 100) 100 = Inr (Finite v)"
    using int_truediv_mod [of 100 175] by auto
  moreover have "overwatch_seconds_remaining_until_reveal 175 100 2 500000000000000000
                   = Inr (Finite 125)"
    by (simp add: overwatch_eval)
  ultimately show ?thesis
    by (simp add: get_overwatch_epoch_data_def OverwatchEpochData_init_def Let_def)
qed

text \<open>The same on every input: the function raises, whatever was fetched.\<close>

lemma get_overwatch_epoch_data_never_returns:
  "isl (get_overwatch_epoch_data BLOCK_SECS current_block epoch_length multiplier cutoff_percent)"
  by (simp add: get_overwatch_epoch_data_def OverwatchEpochData_init_def Let_def
        split: sum.splits)

text \<open>
  C9, as stated, fails. With the current block \<open>2^53 + 3\<close>, the epoch length
  \<open>2^53 + 4\<close>, multiplier 1 and cutoff percent \<open>10^18\<close> the cutoff block is \<open>2^53 + 4\<close>.
  The comparison of the block with the cutoff is exact, so
  \<^verbatim>\<open>in_overwatch_commit_period\<close> returns \<^verbatim>\<open>True\<close>; the subtraction converts the block
  to the float \<open>2^53 + 4\<close>, so \<^verbatim>\<open>seconds_remaining_until_reveal\<close> is \<^verbatim>\<open>0.0\<close>.
\<close>

theorem commit_period_counterexample:
  "in_overwatch_commit_period 6 9007199254740995 9007199254740996 1 1000000000000000000
     = Inr True
   \<and> overwatch_seconds_remaining_until_reveal 9007199254740995 9007199254740996 1
       1000000000000000000
     = Inr (Finite 0)"
  by (simp add: in_overwatch_commit_period_cutoff overwatch_eval float_of_int_1e18 float_of_int_2_53_4
        round_to_double_2_53_4 float_of_int_2_53_3)

text \<open>
  C9, amended. On the same four integers, with an epoch length other than 0 and a
  current block of magnitude at most \<open>2^53\<close>: \<^verbatim>\<open>in_overwatch_commit_period\<close> returns
  \<^verbatim>\<open>True\<close> if and only if the \<^verbatim>\<open>seconds_remaining_until_reveal\<close> that
  \<^verbatim>\<open>get_overwatch_epoch_data\<close> computes is positive; and where the float arithmetic of
  the cutoff raises in one, it raises the same exception in the other.
\<close>

theorem commit_period_iff_reveal_positive:
  assumes "epoch_length \<noteq> 0" and "\<bar>current_block\<bar> \<le> 2 ^ 53"
  shows "in_overwatch_commit_period BLOCK_SECS current_block epoch_length multiplier
           cutoff_percent
         = map_sum id (float_lt (Finite 0))
             (overwatch_seconds_remaining_until_reveal current_block epoch_length
                multiplier cutoff_percent)"
proof (cases "overwatch_epoch_cutoff_block current_block epoch_length multiplier cutoff_percent")
  case (Inl e)
  then show ?thesis
    using in_overwatch_commit_period_cutoff [OF assms(1)]
    by (simp add: overwatch_seconds_remaining_until_reveal_def)
next
  case (Inr c)
  note shape = overwatch_epoch_cutoff_block_shape [OF Inr]
  have "float_lt (Finite 0)
          (if int_gt_float current_block c then Finite 0
           else float_sub c (Finite (of_int current_block)))
        \<longleftrightarrow> int_lt_float current_block c"
  proof (cases "int_gt_float current_block c")
    case True
    then have "\<not> int_lt_float current_block c"
      by (cases c) simp_all
    with True show ?thesis by simp
  next
    case False
    then show ?thesis
      using reveal_sub_sign(2) [OF shape] by simp
  qed
  then show ?thesis
    using in_overwatch_commit_period_cutoff [OF assms(1)] reveal_value [OF Inr assms(2)] Inr
    by simp
qed
theorem commit_period_iff_reveal_positive_witness:
  "(10::int) \<noteq> 0 \<and> \<bar>3::int\<bar> \<le> 2 ^ 53 \<and> \<bar>5::int\<bar> \<le> 2 ^ 53
   \<and> in_overwatch_commit_period 6 3 10 1 500000000000000000 = Inr True
   \<and> overwatch_seconds_remaining_until_reveal 3 10 1 500000000000000000 = Inr (Finite 2)
   \<and> in_overwatch_commit_period 6 5 10 1 500000000000000000 = Inr False
   \<and> overwatch_seconds_remaining_until_reveal 5 10 1 500000000000000000 = Inr (Finite 0)"
  using commit_period_iff_reveal_positive [of 10 3 6 1 500000000000000000]
        commit_period_iff_reveal_positive [of 10 5 6 1 500000000000000000]
  by (simp add: overwatch_eval)

text \<open>
  A cutoff that is not exact: with epoch length 100, multiplier 1 and cutoff percent
  \<open>7 * 10^16\<close> the float \<^verbatim>\<open>0.07\<close> lies above 7/100, and the cutoff block of block 7 is
  \<open>7 + 2^-50\<close>, the double after 7. Block 7 is before it.
\<close>

lemma float_of_int_7e16: "float_of_int 70000000000000000 = Inr (Finite 70000000000000000)"
  using float_of_int_scaled [of 70000000000000000 1068115234375 16] by simp

lemma round_to_double_7_100:
  "round_to_double (7 / 100) = Finite (1261007895663739 / 18014398509481984)"
  using round_to_double_eval [of "- 4" "7 / 100" "- 56" 5044031582654956]
  by (simp add: round_half_even_def Let_def power_int_minus floor_rat_numeral)

lemma round_to_double_7_eps:
  "round_to_double (31525197391593475 / 4503599627370496)
     = Finite (7881299347898369 / 1125899906842624)"
  using round_to_double_eval [of 2 "31525197391593475 / 4503599627370496" "- 50"
          7881299347898369]
  by (simp add: round_half_even_def Let_def power_int_minus floor_rat_numeral)

lemma round_to_double_7_next:
  "round_to_double (7881299347898369 / 1125899906842624)
     = Finite (7881299347898369 / 1125899906842624)"
  using round_to_double_exact [of "- 50" 7881299347898369]
  by (simp add: power_int_minus)

lemma round_to_double_ulp_7:
  "round_to_double (1 / 1125899906842624) = Finite (1 / 1125899906842624)"
  using round_to_double_exact [of "- 50" 1]
  by (simp add: power_int_minus)

lemma overwatch_inexact_cutoff_example:
  "overwatch_epoch_cutoff_block 7 100 1 70000000000000000
     = Inr (Finite (7 + 1 / 2 ^ 50))
   \<and> in_overwatch_commit_period 6 7 100 1 70000000000000000 = Inr True
   \<and> overwatch_seconds_remaining_until_reveal 7 100 1 70000000000000000
     = Inr (Finite (1 / 2 ^ 50))"
  by (simp add: in_overwatch_commit_period_cutoff overwatch_eval float_of_int_7e16 round_to_double_7_100
        round_to_double_7_eps round_to_double_7_next round_to_double_ulp_7)

section \<open>Properties of the retry executor and the query layer\<close>

lemma make_query_returns:
  "interface (attempts w) = Inr v \<Longrightarrow>
   make_query interface w =
     (Inr (Some v), w\<lparr>attempts := Suc (attempts w), trace := trace w @ [Query]\<rparr>)"
  by (simp add: make_query_def log_action_def)

lemma make_query_raises:
  "interface (attempts w) = Inl e \<Longrightarrow> e \<noteq> SubstrateRequestException \<Longrightarrow>
   make_query interface w =
     (Inl e, w\<lparr>attempts := Suc (attempts w), trace := trace w @ [Query]\<rparr>)"
  by (simp add: make_query_def log_action_def)

text \<open>
  A \<^verbatim>\<open>SubstrateRequestException\<close> does not reach the executor: the inner function
  returns \<^verbatim>\<open>None\<close>, and \<^verbatim>\<open>get_block_number\<close> returns \<^verbatim>\<open>None\<close> after one attempt.
\<close>

lemma get_block_number_request_exception:
  assumes "interface (attempts w) = Inl SubstrateRequestException"
  shows "get_block_number BLOCK_SECS interface w =
           (Inr None, w\<lparr>attempts := Suc (attempts w), trace := trace w @ [Query]\<rparr>)"
  using assms
  by (simp add: get_block_number_def retry_def make_query_def log_action_def eval_nat_numeral)

text \<open>
  The loop over the inner function, from any world: \<open>k\<close> runs that raise, then one that
  returns, with at least \<open>k\<close> attempts left after the first.
\<close>

lemma retry_loop_make_query_succeeds:
  assumes "\<forall>j<k. \<exists>e. interface (attempts w + j) = Inl e \<and> e \<noteq> SubstrateRequestException"
    and "interface (attempts w + k) = Inr v"
    and "k \<le> left"
  shows "retry_loop left wt retry_always (make_query interface) w =
           (Inr (Some v),
            w\<lparr>attempts := attempts w + k + 1,
              slept := slept w + int k * wt,
              trace := trace w @ replicate (k + 1) Query\<rparr>)"
  using assms
proof (induction k arbitrary: w left)
  case 0
  then have "make_query interface w =
      (Inr (Some v), w\<lparr>attempts := Suc (attempts w), trace := trace w @ [Query]\<rparr>)"
    by (simp add: make_query_returns)
  then show ?case by (cases left) simp_all
next
  case (Suc k)
  from Suc.prems(3) obtain l where left: "left = Suc l" and kl: "k \<le> l"
    by (cases left) auto
  from Suc.prems(1) obtain e
    where e: "interface (attempts w) = Inl e" "e \<noteq> SubstrateRequestException"
    by force
  let ?w1 = "w\<lparr>attempts := Suc (attempts w), trace := trace w @ [Query]\<rparr>"
  let ?w2 = "?w1\<lparr>slept := slept ?w1 + wt\<rparr>"
  have step: "make_query interface w = (Inl e, ?w1)"
    using e by (rule make_query_raises)
  have fails:
    "\<forall>j<k. \<exists>e. interface (attempts ?w2 + j) = Inl e \<and> e \<noteq> SubstrateRequestException"
    using Suc.prems(1) by (auto dest: spec [where x = "Suc j" for j])
  have ok: "interface (attempts ?w2 + k) = Inr v"
    using Suc.prems(2) by simp
  have "retry_loop left wt retry_always (make_query interface) w =
        retry_loop l wt retry_always (make_query interface) ?w2"
    using step left by (simp add: retry_always_def)
  also have "\<dots> = (Inr (Some v),
            ?w2\<lparr>attempts := attempts ?w2 + k + 1,
              slept := slept ?w2 + int k * wt,
              trace := trace ?w2 @ replicate (k + 1) Query\<rparr>)"
    using Suc.IH [OF fails ok kl] .
  finally show ?case by (simp add: algebra_simps)
qed

text \<open>The loop when every run raises: the last exception comes back in \<^verbatim>\<open>RetryError\<close>.\<close>

lemma retry_loop_make_query_exhausted:
  assumes "\<forall>j\<le>left. \<exists>e. interface (attempts w + j) = Inl e \<and> e \<noteq> SubstrateRequestException"
  shows "\<exists>e. interface (attempts w + left) = Inl e \<and>
           retry_loop left wt retry_always (make_query interface) w =
           (Inl (RetryError e),
            w\<lparr>attempts := attempts w + left + 1,
              slept := slept w + int left * wt,
              trace := trace w @ replicate (left + 1) Query\<rparr>)"
  using assms
proof (induction left arbitrary: w)
  case 0
  then obtain e where "interface (attempts w) = Inl e" "e \<noteq> SubstrateRequestException"
    by force
  then show ?case
    by (simp add: make_query_raises retry_always_def)
next
  case (Suc l)
  from Suc.prems obtain e
    where e: "interface (attempts w) = Inl e" "e \<noteq> SubstrateRequestException"
    by force
  let ?w1 = "w\<lparr>attempts := Suc (attempts w), trace := trace w @ [Query]\<rparr>"
  let ?w2 = "?w1\<lparr>slept := slept ?w1 + wt\<rparr>"
  have step: "make_query interface w = (Inl e, ?w1)"
    using e by (rule make_query_raises)
  have fails:
    "\<forall>j\<le>l. \<exists>e. interface (attempts ?w2 + j) = Inl e \<and> e \<noteq> SubstrateRequestException"
    using Suc.prems by (auto dest: spec [where x = "Suc j" for j])
  have unfold: "retry_loop (Suc l) wt retry_always (make_query interface) w =
        retry_loop l wt retry_always (make_query interface) ?w2"
    using step by (simp add: retry_always_def)
  from Suc.IH [OF fails] obtain e' where
    "interface (attempts ?w2 + l) = Inl e'"
    "retry_loop l wt retry_always (make_query interface) ?w2 =
       (Inl (RetryError e'),
        ?w2\<lparr>attempts := attempts ?w2 + l + 1,
          slept := slept ?w2 + int l * wt,
          trace := trace ?w2 @ replicate (l + 1) Query\<rparr>)"
    by blast
  then show ?case
    using unfold by (simp add: algebra_simps)
qed

text \<open>
  C4. Let the interface raise at the first \<open>k\<close> runs of the inner function of
  \<^verbatim>\<open>get_block_number\<close>, each time an exception that the executor retries (any but
  \<^verbatim>\<open>SubstrateRequestException\<close>, which the inner function catches), and return \<open>v\<close> at
  the next run. For \<open>k < 4\<close> the call returns \<open>v\<close> after exactly \<open>k + 1\<close> attempts and
  \<open>k\<close> waits of \<^verbatim>\<open>BLOCK_SECS + 1\<close>. For \<open>k \<ge> 4\<close> it makes exactly 4 attempts and raises
  \<^verbatim>\<open>RetryError\<close>, which carries the exception of the fourth attempt.
\<close>

theorem get_block_number_retry:
  assumes "\<forall>j<k. \<exists>e. interface j = Inl e \<and> e \<noteq> SubstrateRequestException"
    and "interface k = Inr v"
    and "attempts w = 0"
  shows "(k < 4 \<longrightarrow>
            get_block_number BLOCK_SECS interface w =
              (Inr (Some v),
               w\<lparr>attempts := k + 1,
                 slept := slept w + int k * (BLOCK_SECS + 1),
                 trace := trace w @ replicate (k + 1) Query\<rparr>))
       \<and> (4 \<le> k \<longrightarrow>
            (\<exists>e. interface 3 = Inl e \<and>
               get_block_number BLOCK_SECS interface w =
                 (Inl (RetryError e),
                  w\<lparr>attempts := 4,
                    slept := slept w + 3 * (BLOCK_SECS + 1),
                    trace := trace w @ replicate 4 Query\<rparr>)))"
proof (intro conjI impI)
  assume "k < 4"
  then have "k \<le> 3" by simp
  with retry_loop_make_query_succeeds [of k interface w v 3 "BLOCK_SECS + 1"] assms
  show "get_block_number BLOCK_SECS interface w =
              (Inr (Some v),
               w\<lparr>attempts := k + 1,
                 slept := slept w + int k * (BLOCK_SECS + 1),
                 trace := trace w @ replicate (k + 1) Query\<rparr>)"
    by (simp add: get_block_number_def retry_def)
next
  assume "4 \<le> k"
  then have "\<forall>j\<le>3. \<exists>e. interface (attempts w + j) = Inl e \<and> e \<noteq> SubstrateRequestException"
    using assms by auto
  from retry_loop_make_query_exhausted [OF this, of "BLOCK_SECS + 1"] assms(3)
  show "\<exists>e. interface 3 = Inl e \<and>
               get_block_number BLOCK_SECS interface w =
                 (Inl (RetryError e),
                  w\<lparr>attempts := 4,
                    slept := slept w + 3 * (BLOCK_SECS + 1),
                    trace := trace w @ replicate 4 Query\<rparr>)"
    by (simp add: get_block_number_def retry_def)
qed

theorem get_block_number_retry_witness:
  "get_block_number 6
     (\<lambda>i. if i < 2 then Inl WebSocketConnectionClosedException else Inr 1000)
     \<lparr>attempts = 0, slept = 0, trace = []\<rparr>
     = (Inr (Some 1000), \<lparr>attempts = 3, slept = 14, trace = [Query, Query, Query]\<rparr>)
   \<and> get_block_number 6
       (\<lambda>i. if i < 3 then Inl WebSocketConnectionClosedException
             else if i < 5 then Inl ConnectionError else Inr 1000)
       \<lparr>attempts = 0, slept = 0, trace = []\<rparr>
     = (Inl (RetryError ConnectionError),
        \<lparr>attempts = 4, slept = 21, trace = [Query, Query, Query, Query]\<rparr>)"
  using get_block_number_retry
          [of 2 "\<lambda>i. if i < 2 then Inl WebSocketConnectionClosedException else Inr 1000"
              1000 "\<lparr>attempts = 0, slept = 0, trace = []\<rparr>" 6]
        get_block_number_retry
          [of 5 "\<lambda>i. if i < 3 then Inl WebSocketConnectionClosedException
                      else if i < 5 then Inl ConnectionError else Inr 1000"
              1000 "\<lparr>attempts = 0, slept = 0, trace = []\<rparr>" 6]
  by (simp add: eval_nat_numeral)

subsection \<open>The slot lookup\<close>

lemma slot_make_query_raises:
  assumes "slot_attempt_fails (interface (attempts w))"
  shows "\<exists>e. e \<in> set slot_retry_types \<and>
     slot_make_query interface w =
      (Inl e, w\<lparr>attempts := Suc (attempts w),
                trace := trace w @ slot_connect_trace (interface (attempts w))
                           @ [Query, Close, ConnectWebsocket, InitRuntime]\<rparr>)"
  using assms
  by (auto simp add: slot_attempt_fails_def slot_make_query_def slot_try_block_def
        slot_except_block_def slot_connect_trace_def log_action_def Let_def
        split: option.splits sum.splits)

lemma slot_make_query_returns:
  assumes "websocket_connected (interface (attempts w))
             \<or> connect_websocket_in_try (interface (attempts w)) = None"
    and "query_outcome (interface (attempts w)) = Inr v"
  shows "slot_make_query interface w =
      (Inr v, w\<lparr>attempts := Suc (attempts w),
                trace := trace w @ slot_connect_trace (interface (attempts w)) @ [Query]\<rparr>)"
  using assms
  by (auto simp add: slot_make_query_def slot_try_block_def slot_connect_trace_def
        log_action_def Let_def)

lemma retry_loop_slot_succeeds:
  assumes "\<forall>j<k. slot_attempt_fails (interface (attempts w + j))"
    and "websocket_connected (interface (attempts w + k))
           \<or> connect_websocket_in_try (interface (attempts w + k)) = None"
    and "query_outcome (interface (attempts w + k)) = Inr v"
    and "k \<le> left"
  shows "retry_loop left wt (retry_if_exception_type slot_retry_types) (slot_make_query interface) w =
           (Inr v,
            w\<lparr>attempts := attempts w + k + 1,
              slept := slept w + int k * wt,
              trace := trace w
                @ concat (map (\<lambda>i. slot_connect_trace (interface i)
                                      @ [Query, Close, ConnectWebsocket, InitRuntime])
                            [attempts w ..< attempts w + k])
                @ slot_connect_trace (interface (attempts w + k)) @ [Query]\<rparr>)"
  using assms
proof (induction k arbitrary: w left)
  case 0
  then have "slot_make_query interface w =
      (Inr v, w\<lparr>attempts := Suc (attempts w),
                trace := trace w @ slot_connect_trace (interface (attempts w)) @ [Query]\<rparr>)"
    using slot_make_query_returns [of interface w v] by simp
  then show ?case by (cases left) simp_all
next
  case (Suc k)
  from Suc.prems(4) obtain l where left: "left = Suc l" and kl: "k \<le> l"
    by (cases left) auto
  have "slot_attempt_fails (interface (attempts w))"
    using Suc.prems(1) by force
  from slot_make_query_raises [of interface w] this obtain e where
    e: "e \<in> set slot_retry_types" and
    step: "slot_make_query interface w =
      (Inl e, w\<lparr>attempts := Suc (attempts w),
                trace := trace w @ slot_connect_trace (interface (attempts w))
                           @ [Query, Close, ConnectWebsocket, InitRuntime]\<rparr>)"
    by blast
  let ?w1 = "w\<lparr>attempts := Suc (attempts w),
                trace := trace w @ slot_connect_trace (interface (attempts w))
                           @ [Query, Close, ConnectWebsocket, InitRuntime]\<rparr>"
  let ?w2 = "?w1\<lparr>slept := slept ?w1 + wt\<rparr>"
  have fails: "\<forall>j<k. slot_attempt_fails (interface (attempts ?w2 + j))"
    using Suc.prems(1) by (auto dest: spec [where x = "Suc j" for j])
  have pre_ok: "websocket_connected (interface (attempts ?w2 + k))
           \<or> connect_websocket_in_try (interface (attempts ?w2 + k)) = None"
    using Suc.prems(2) by simp
  have ok: "query_outcome (interface (attempts ?w2 + k)) = Inr v"
    using Suc.prems(3) by simp
  have "retry_loop left wt (retry_if_exception_type slot_retry_types) (slot_make_query interface) w =
        retry_loop l wt (retry_if_exception_type slot_retry_types) (slot_make_query interface) ?w2"
    using step left e by (simp add: retry_if_exception_type_def)
  also note Suc.IH [OF fails pre_ok ok kl]
  finally show ?case
    by (simp add: upt_conv_Cons ring_distribs del: upt_Suc)
qed

lemma retry_loop_slot_exhausted:
  assumes "\<forall>j\<le>left. slot_attempt_fails (interface (attempts w + j))"
  shows "\<exists>e. retry_loop left wt (retry_if_exception_type slot_retry_types) (slot_make_query interface) w =
           (Inl (RetryError e),
            w\<lparr>attempts := attempts w + left + 1,
              slept := slept w + int left * wt,
              trace := trace w
                @ concat (map (\<lambda>i. slot_connect_trace (interface i)
                                      @ [Query, Close, ConnectWebsocket, InitRuntime])
                            [attempts w ..< attempts w + left + 1])\<rparr>)"
  using assms
proof (induction left arbitrary: w)
  case 0
  then have "slot_attempt_fails (interface (attempts w))" by simp
  from slot_make_query_raises [of interface w] this show ?case
    by (auto simp add: retry_if_exception_type_def)
next
  case (Suc l)
  have "slot_attempt_fails (interface (attempts w))"
    using Suc.prems by force
  from slot_make_query_raises [of interface w] this obtain e where
    e: "e \<in> set slot_retry_types" and
    step: "slot_make_query interface w =
      (Inl e, w\<lparr>attempts := Suc (attempts w),
                trace := trace w @ slot_connect_trace (interface (attempts w))
                           @ [Query, Close, ConnectWebsocket, InitRuntime]\<rparr>)"
    by blast
  let ?w1 = "w\<lparr>attempts := Suc (attempts w),
                trace := trace w @ slot_connect_trace (interface (attempts w))
                           @ [Query, Close, ConnectWebsocket, InitRuntime]\<rparr>"
  let ?w2 = "?w1\<lparr>slept := slept ?w1 + wt\<rparr>"
  have fails: "\<forall>j\<le>l. slot_attempt_fails (interface (attempts ?w2 + j))"
    using Suc.prems by (auto dest: spec [where x = "Suc j" for j])
  have unfold: "retry_loop (Suc l) wt (retry_if_exception_type slot_retry_types) (slot_make_query interface) w =
        retry_loop l wt (retry_if_exception_type slot_retry_types) (slot_make_query interface) ?w2"
    using step e by (simp add: retry_if_exception_type_def)
  from Suc.IH [OF fails] obtain e' where
    "retry_loop l wt (retry_if_exception_type slot_retry_types) (slot_make_query interface) ?w2 =
           (Inl (RetryError e'),
            ?w2\<lparr>attempts := attempts ?w2 + l + 1,
              slept := slept ?w2 + int l * wt,
              trace := trace ?w2
                @ concat (map (\<lambda>i. slot_connect_trace (interface i)
                                      @ [Query, Close, ConnectWebsocket, InitRuntime])
                            [attempts ?w2 ..< attempts ?w2 + l + 1])\<rparr>)"
    by blast
  then show ?case
    using unfold by (simp add: upt_conv_Cons ring_distribs del: upt_Suc)
qed

text \<open>
  C5. Let the first \<open>k\<close> runs of the inner function of \<^verbatim>\<open>get_subnet_slot\<close> fail with
  one of the listed exceptions, and let the next run return \<open>v\<close>. After each failed run
  the interface is closed, connected again and its runtime loaded, before the executor
  goes on; whether \<^verbatim>\<open>close\<close> raises makes no difference. For \<open>k < 4\<close> the call returns
  \<open>v\<close>. For \<open>k \<ge> 4\<close> it makes 4 attempts, each followed by the reconnect, and returns
  \<^verbatim>\<open>None\<close>: no exception leaves the function.
\<close>

theorem get_subnet_slot_reconnects:
  assumes "\<forall>j<k. slot_attempt_fails (interface j)"
    and "websocket_connected (interface k) \<or> connect_websocket_in_try (interface k) = None"
    and "query_outcome (interface k) = Inr v"
    and "attempts w = 0"
  shows "(k < 4 \<longrightarrow>
            get_subnet_slot BLOCK_SECS interface w =
              (Some v,
               w\<lparr>attempts := k + 1,
                 slept := slept w + int k * (BLOCK_SECS + 1),
                 trace := trace w
                   @ concat (map (\<lambda>i. slot_connect_trace (interface i)
                                         @ [Query, Close, ConnectWebsocket, InitRuntime])
                               [0 ..< k])
                   @ slot_connect_trace (interface k) @ [Query]\<rparr>))
       \<and> (4 \<le> k \<longrightarrow>
            get_subnet_slot BLOCK_SECS interface w =
              (None,
               w\<lparr>attempts := 4,
                 slept := slept w + 3 * (BLOCK_SECS + 1),
                 trace := trace w
                   @ concat (map (\<lambda>i. slot_connect_trace (interface i)
                                         @ [Query, Close, ConnectWebsocket, InitRuntime])
                               [0 ..< 4])\<rparr>))"
proof (intro conjI impI)
  assume "k < 4"
  then have "k \<le> 3" by simp
  with retry_loop_slot_succeeds [of k interface w v 3 "BLOCK_SECS + 1"] assms
  show "get_subnet_slot BLOCK_SECS interface w =
              (Some v,
               w\<lparr>attempts := k + 1,
                 slept := slept w + int k * (BLOCK_SECS + 1),
                 trace := trace w
                   @ concat (map (\<lambda>i. slot_connect_trace (interface i)
                                         @ [Query, Close, ConnectWebsocket, InitRuntime])
                               [0 ..< k])
                   @ slot_connect_trace (interface k) @ [Query]\<rparr>)"
    by (simp add: get_subnet_slot_def retry_def)
next
  assume "4 \<le> k"
  then have "\<forall>j\<le>3. slot_attempt_fails (interface (attempts w + j))"
    using assms by auto
  from retry_loop_slot_exhausted [OF this, of "BLOCK_SECS + 1"] assms(4)
  show "get_subnet_slot BLOCK_SECS interface w =
              (None,
               w\<lparr>attempts := 4,
                 slept := slept w + 3 * (BLOCK_SECS + 1),
                 trace := trace w
                   @ concat (map (\<lambda>i. slot_connect_trace (interface i)
                                         @ [Query, Close, ConnectWebsocket, InitRuntime])
                               [0 ..< 4])\<rparr>)"
    by (auto simp add: get_subnet_slot_def retry_def)
qed


theorem get_subnet_slot_reconnects_witness:
  "get_subnet_slot 6
     (\<lambda>i. \<lparr>websocket_connected = (i \<noteq> 0),
            connect_websocket_in_try = None,
            query_outcome = (if i < 1 then Inl WebSocketConnectionClosedException else Inr 42),
            close_outcome = Some ConnectionError,
            connect_websocket_in_except = None,
            init_runtime_outcome = None\<rparr>)
     \<lparr>attempts = 0, slept = 0, trace = []\<rparr>
     = (Some (42::int),
        \<lparr>attempts = 2, slept = 7,
          trace = [ConnectWebsocket, Query, Close, ConnectWebsocket, InitRuntime, Query]\<rparr>)
   \<and> get_subnet_slot 6
       (\<lambda>i. \<lparr>websocket_connected = True,
              connect_websocket_in_try = None,
              query_outcome = (if i < 4 then Inl AttributeError else Inr 42),
              close_outcome = None,
              connect_websocket_in_except = None,
              init_runtime_outcome = None\<rparr>)
       \<lparr>attempts = 0, slept = 0, trace = []\<rparr>
     = (None :: int option,
        \<lparr>attempts = 4, slept = 21,
          trace = [Query, Close, ConnectWebsocket, InitRuntime,
                   Query, Close, ConnectWebsocket, InitRuntime,
                   Query, Close, ConnectWebsocket, InitRuntime,
                   Query, Close, ConnectWebsocket, InitRuntime]\<rparr>)"
  using get_subnet_slot_reconnects
          [of 1 "\<lambda>i. \<lparr>websocket_connected = (i \<noteq> 0),
            connect_websocket_in_try = None,
            query_outcome = (if i < 1 then Inl WebSocketConnectionClosedException else Inr 42),
            close_outcome = Some ConnectionError,
            connect_websocket_in_except = None,
            init_runtime_outcome = None\<rparr>" "42::int" "\<lparr>attempts = 0, slept = 0, trace = []\<rparr>" 6]
        get_subnet_slot_reconnects
          [of 4 "\<lambda>i. \<lparr>websocket_connected = True,
              connect_websocket_in_try = None,
              query_outcome = (if i < 4 then Inl AttributeError else Inr 42),
              close_outcome = None,
              connect_websocket_in_except = None,
              init_runtime_outcome = None\<rparr>" "42::int" "\<lparr>attempts = 0, slept = 0, trace = []\<rparr>" 6]
  by (simp add: slot_attempt_fails_def slot_retry_types_def slot_connect_trace_def
        eval_nat_numeral)

subsection \<open>The event log\<close>

lemma scan_events_find:
  assumes "\<forall>ev \<in> set events. module_id ev = ''Network'' \<and> event_id ev = ''RewardResult''
             \<longrightarrow> length (attributes ev) = 2"
  shows "scan_events events target =
           Inr (map_option (\<lambda>ev. (attributes ev ! 0, attributes ev ! 1))
                  (List.find (\<lambda>ev. module_id ev = ''Network'' \<and> event_id ev = ''RewardResult''
                                    \<and> attributes ev ! 0 = target) events))"
  using assms
proof (induction events)
  case Nil
  show ?case by simp
next
  case (Cons ev events)
  show ?case
  proof (cases "module_id ev = ''Network'' \<and> event_id ev = ''RewardResult''")
    case False
    with Cons show ?thesis by auto
  next
    case True
    with Cons.prems have "length (attributes ev) = 2" by simp
    then obtain s p where "attributes ev = [s, p]"
      by (cases "attributes ev"; cases "tl (attributes ev)") auto
    with True Cons show ?thesis by auto
  qed
qed

text \<open>
  C8, as stated, fails. In the log of block \<open>100 * 3\<close> the first entry with the module
  and event identifiers looked for belongs to subnet 2; the lookup for subnet 1 does not
  return it, but the attributes of the second entry.
\<close>

theorem reward_result_event_counterexample:
  "fst (get_reward_result_event 6
          (\<lambda>i. \<lparr>epoch_length_outcome = Inr (Some 100),
                 events_of_block = (\<lambda>n. if n = 300 then Inr
                   [\<lparr>module_id = ''Network'', event_id = ''RewardResult'', attributes = [2, 10]\<rparr>,
                    \<lparr>module_id = ''Network'', event_id = ''RewardResult'', attributes = [1, 20]\<rparr>]
                   else Inr [])\<rparr>)
          \<lparr>attempts = 0, slept = 0, trace = []\<rparr> 1 3)
     = Inr (Some (1, 20))
   \<and> spec_first_module_event_match
        [\<lparr>module_id = ''Network'', event_id = ''RewardResult'', attributes = [2, 10]\<rparr>,
         \<lparr>module_id = ''Network'', event_id = ''RewardResult'', attributes = [1, 20]\<rparr>]
     = Some \<lparr>module_id = ''Network'', event_id = ''RewardResult'', attributes = [2, 10]\<rparr>"
  by (simp add: get_reward_result_event_def retry_def make_event_query_def log_action_def
        Let_def spec_first_module_event_match_def eval_nat_numeral)

text \<open>
  C8, amended. When the epoch length is fetched and the log of the block
  \<^verbatim>\<open>epoch_length * epoch\<close> is read, and every \<^verbatim>\<open>RewardResult\<close> entry of module
  \<^verbatim>\<open>Network\<close> in it has two attributes, \<^verbatim>\<open>get_reward_result_event\<close> returns, after one
  attempt, the two attributes of the first entry that has these identifiers and whose
  first attribute is the target subnet; it returns \<^verbatim>\<open>None\<close>, and raises nothing, when
  there is no such entry.
\<close>

theorem get_reward_result_event_lookup:
  assumes "epoch_length_outcome (interface (attempts w)) = Inr (Some epoch_length)"
    and "events_of_block (interface (attempts w)) (epoch_length * epoch_arg) = Inr events"
    and "\<forall>ev \<in> set events. module_id ev = ''Network'' \<and> event_id ev = ''RewardResult''
             \<longrightarrow> length (attributes ev) = 2"
  shows "get_reward_result_event BLOCK_SECS interface w target epoch_arg =
           (Inr (map_option (\<lambda>ev. (attributes ev ! 0, attributes ev ! 1))
                  (List.find (\<lambda>ev. module_id ev = ''Network'' \<and> event_id ev = ''RewardResult''
                                    \<and> attributes ev ! 0 = target) events)),
            w\<lparr>attempts := Suc (attempts w), trace := trace w @ [Query]\<rparr>)"
  using assms(1,2) scan_events_find [OF assms(3), of target]
  by (simp add: get_reward_result_event_def retry_def make_event_query_def log_action_def
        Let_def eval_nat_numeral)

theorem get_reward_result_event_lookup_witness:
  "get_reward_result_event 6
      (\<lambda>i. \<lparr>epoch_length_outcome = Inr (Some 100),
            events_of_block = (\<lambda>n. if n = 300 then Inr
                 [\<lparr>module_id = ''System'', event_id = ''ExtrinsicSuccess'', attributes = []\<rparr>,
                  \<lparr>module_id = ''Network'', event_id = ''RewardResult'', attributes = [2, 10]\<rparr>,
                  \<lparr>module_id = ''Network'', event_id = ''RewardResult'', attributes = [1, 20]\<rparr>,
                  \<lparr>module_id = ''Network'', event_id = ''RewardResult'', attributes = [1, 30]\<rparr>]
               else Inr [])\<rparr>)
      \<lparr>attempts = 0, slept = 0, trace = []\<rparr> 1 3
    = (Inr (Some (1, 20)), \<lparr>attempts = 1, slept = 0, trace = [Query]\<rparr>)
   \<and> get_reward_result_event 6
      (\<lambda>i. \<lparr>epoch_length_outcome = Inr (Some 100),
            events_of_block = (\<lambda>n. if n = 300 then Inr
                 [\<lparr>module_id = ''System'', event_id = ''ExtrinsicSuccess'', attributes = []\<rparr>,
                  \<lparr>module_id = ''Network'', event_id = ''RewardResult'', attributes = [2, 10]\<rparr>,
                  \<lparr>module_id = ''Network'', event_id = ''RewardResult'', attributes = [1, 20]\<rparr>,
                  \<lparr>module_id = ''Network'', event_id = ''RewardResult'', attributes = [1, 30]\<rparr>]
               else Inr [])\<rparr>)
      \<lparr>attempts = 0, slept = 0, trace = []\<rparr> 7 3
    = (Inr None, \<lparr>attempts = 1, slept = 0, trace = [Query]\<rparr>)"
  using get_reward_result_event_lookup
          [of "\<lambda>i. \<lparr>epoch_length_outcome = Inr (Some 100),
            events_of_block = (\<lambda>n. if n = 300 then Inr
                 [\<lparr>module_id = ''System'', event_id = ''ExtrinsicSuccess'', attributes = []\<rparr>,
                  \<lparr>module_id = ''Network'', event_id = ''RewardResult'', attributes = [2, 10]\<rparr>,
                  \<lparr>module_id = ''Network'', event_id = ''RewardResult'', attributes = [1, 20]\<rparr>,
                  \<lparr>module_id = ''Network'', event_id = ''RewardResult'', attributes = [1, 30]\<rparr>]
               else Inr [])\<rparr>"
              "\<lparr>attempts = 0, slept = 0, trace = []\<rparr>" 100 3
              "[\<lparr>module_id = ''System'', event_id = ''ExtrinsicSuccess'', attributes = []\<rparr>,
                  \<lparr>module_id = ''Network'', event_id = ''RewardResult'', attributes = [2, 10]\<rparr>,
                  \<lparr>module_id = ''Network'', event_id = ''RewardResult'', attributes = [1, 20]\<rparr>,
                  \<lparr>module_id = ''Network'', event_id = ''RewardResult'', attributes = [1, 30]\<rparr>]" 6 1]
        get_reward_result_event_lookup
          [of "\<lambda>i. \<lparr>epoch_length_outcome = Inr (Some 100),
            events_of_block = (\<lambda>n. if n = 300 then Inr
                 [\<lparr>module_id = ''System'', event_id = ''ExtrinsicSuccess'', attributes = []\<rparr>,
                  \<lparr>module_id = ''Network'', event_id = ''RewardResult'', attributes = [2, 10]\<rparr>,
                  \<lparr>module_id = ''Network'', event_id = ''RewardResult'', attributes = [1, 20]\<rparr>,
                  \<lparr>module_id = ''Network'', event_id = ''RewardResult'', attributes = [1, 30]\<rparr>]
               else Inr [])\<rparr>"
              "\<lparr>attempts = 0, slept = 0, trace = []\<rparr>" 100 3
              "[\<lparr>module_id = ''System'', event_id = ''ExtrinsicSuccess'', attributes = []\<rparr>,
                  \<lparr>module_id = ''Network'', event_id = ''RewardResult'', attributes = [2, 10]\<rparr>,
                  \<lparr>module_id = ''Network'', event_id = ''RewardResult'', attributes = [1, 20]\<rparr>,
                  \<lparr>module_id = ''Network'', event_id = ''RewardResult'', attributes = [1, 30]\<rparr>]" 6 7]
  by simp

subsection \<open>The formatted queries\<close>

lemma subnet_node_class_to_enum_name:
  "subnet_node_class_to_enum (SubnetNodeClass_name c) = Inr c"
  by (cases c) (simp_all add: subnet_node_class_to_enum_def)

lemma min_class_comprehension_filter:
  assumes "\<forall>n \<in> set nodes. classification_node_class n = SubnetNodeClass_name (cls n)"
  shows "min_class_comprehension nodes subnet_epoch min_class =
           Inr (filter (\<lambda>n. SubnetNodeClass_value (cls n) \<ge> SubnetNodeClass_value min_class
                              \<and> classification_start_epoch n \<le> subnet_epoch) nodes)"
  using assms
  by (induction nodes) (simp_all add: subnet_node_class_to_enum_name)

text \<open>
  C7. Let the fetch and the decoder succeed with the nodes \<open>nodes\<close>, each of which has
  one of the four classes (\<open>cls n\<close>) by name. With \<^verbatim>\<open>min_class=Included\<close> and the subnet
  epoch \<open>E\<close>, \<^verbatim>\<open>get_min_class_subnet_nodes_formatted\<close> returns, in their order, exactly
  the nodes whose class has a value of at least 3, the value of \<^verbatim>\<open>Included\<close>, and whose
  start epoch is at most \<open>E\<close>.
\<close>

theorem min_class_filter_included:
  assumes "fetched = Inr (Some response)"
    and "response ''result'' = Some b"
    and "list_from_vec_u8 b = Inr nodes"
    and "\<forall>n \<in> set nodes. classification_node_class n = SubnetNodeClass_name (cls n)"
  shows "get_min_class_subnet_nodes_formatted list_from_vec_u8 fetched E Included =
           filter (\<lambda>n. SubnetNodeClass_value (cls n) \<ge> 3 \<and> classification_start_epoch n \<le> E)
             nodes
         \<and> SubnetNodeClass_value Included = 3"
  using assms(1-3) min_class_comprehension_filter [OF assms(4), of E Included]
  by (simp add: get_min_class_subnet_nodes_formatted_def fetch_and_decode_def
        subscript_result_def)

theorem min_class_filter_included_witness:
  "get_min_class_subnet_nodes_formatted
      (\<lambda>b::nat. Inr
                [\<lparr>subnet_node_id = 1, classification_node_class = ''Validator'',
                   classification_start_epoch = 2\<rparr>,
                 \<lparr>subnet_node_id = 2, classification_node_class = ''Idle'',
                   classification_start_epoch = 1\<rparr>,
                 \<lparr>subnet_node_id = 3, classification_node_class = ''Included'',
                   classification_start_epoch = 9\<rparr>,
                 \<lparr>subnet_node_id = 4, classification_node_class = ''Included'',
                   classification_start_epoch = 5\<rparr>,
                 \<lparr>subnet_node_id = 5, classification_node_class = ''Registered'',
                   classification_start_epoch = 0\<rparr>])
      (Inr (Some [''result'' \<mapsto> 0])) 5 Included
    = [\<lparr>subnet_node_id = 1, classification_node_class = ''Validator'',
         classification_start_epoch = 2\<rparr>,
       \<lparr>subnet_node_id = 4, classification_node_class = ''Included'',
         classification_start_epoch = 5\<rparr>]"
  using min_class_filter_included
    [of "Inr (Some [''result'' \<mapsto> 0])" "[''result'' \<mapsto> 0]" "0::nat"
        "\<lambda>b::nat. Inr
                [\<lparr>subnet_node_id = 1, classification_node_class = ''Validator'',
                   classification_start_epoch = 2\<rparr>,
                 \<lparr>subnet_node_id = 2, classification_node_class = ''Idle'',
                   classification_start_epoch = 1\<rparr>,
                 \<lparr>subnet_node_id = 3, classification_node_class = ''Included'',
                   classification_start_epoch = 9\<rparr>,
                 \<lparr>subnet_node_id = 4, classification_node_class = ''Included'',
                   classification_start_epoch = 5\<rparr>,
                 \<lparr>subnet_node_id = 5, classification_node_class = ''Registered'',
                   classification_start_epoch = 0\<rparr>]"
        "[\<lparr>subnet_node_id = 1, classification_node_class = ''Validator'',
                   classification_start_epoch = 2\<rparr>,
                 \<lparr>subnet_node_id = 2, classification_node_class = ''Idle'',
                   classification_start_epoch = 1\<rparr>,
                 \<lparr>subnet_node_id = 3, classification_node_class = ''Included'',
                   classification_start_epoch = 9\<rparr>,
                 \<lparr>subnet_node_id = 4, classification_node_class = ''Included'',
                   classification_start_epoch = 5\<rparr>,
                 \<lparr>subnet_node_id = 5, classification_node_class = ''Registered'',
                   classification_start_epoch = 0\<rparr>]"
        "\<lambda>n. if subnet_node_id n = 1 then Validator else if subnet_node_id n = 2 then Idle
              else if subnet_node_id n = 5 then Registered else Included" 5]
  by simp

text \<open>
  C10. Whatever fails in the \<^verbatim>\<open>try\<close> block (the query function raises, as it does with
  \<^verbatim>\<open>RetryError\<close> when its attempts are used up; it returns \<^verbatim>\<open>None\<close>; the response has no
  result; the decoder raises), \<^verbatim>\<open>get_min_class_subnet_nodes_formatted\<close> returns the
  empty list, and \<^verbatim>\<open>get_subnet_nodes_info_formatted\<close> returns \<^verbatim>\<open>None\<close>. Neither raises.
\<close>

theorem min_class_empty_on_failure:
  assumes "isl fetched \<or> fetched = Inr None
         \<or> (\<exists>response. fetched = Inr (Some response)
               \<and> (case response ''result'' of
                     None \<Rightarrow> True
                   | Some b \<Rightarrow> isl (list_from_vec_u8 b)))"
  shows "get_min_class_subnet_nodes_formatted list_from_vec_u8 fetched subnet_epoch min_class = []
       \<and> get_subnet_nodes_info_formatted list_from_vec_u8 fetched = None"
  using assms
  by (auto simp add: get_min_class_subnet_nodes_formatted_def
        get_subnet_nodes_info_formatted_def fetch_and_decode_def subscript_result_def isl_def
        split: option.splits sum.splits)

theorem min_class_empty_on_failure_witness:
  "get_min_class_subnet_nodes_formatted (\<lambda>b::nat. Inr []) (Inl (RetryError ConnectionError))
       5 Included = []
   \<and> get_subnet_nodes_info_formatted (\<lambda>b::nat. Inr []) (Inl (RetryError ConnectionError)) = None
   \<and> get_min_class_subnet_nodes_formatted (\<lambda>b::nat. Inr []) (Inr None) 5 Included = []
   \<and> get_subnet_nodes_info_formatted (\<lambda>b::nat. Inr []) (Inr None) = None
   \<and> get_min_class_subnet_nodes_formatted (\<lambda>b::nat. Inr []) (Inr (Some Map.empty))
       5 Included = []
   \<and> get_subnet_nodes_info_formatted (\<lambda>b::nat. Inr []) (Inr (Some Map.empty)) = None
   \<and> get_min_class_subnet_nodes_formatted (\<lambda>b::nat. Inl ValueError)
       (Inr (Some [''result'' \<mapsto> 0])) 5 Included = []
   \<and> get_subnet_nodes_info_formatted (\<lambda>b::nat. Inl ValueError)
       (Inr (Some [''result'' \<mapsto> 0])) = None"
  using min_class_empty_on_failure
          [of "Inl (RetryError ConnectionError)" "\<lambda>b::nat. Inr []" 5 Included]
        min_class_empty_on_failure [of "Inr None" "\<lambda>b::nat. Inr []" 5 Included]
        min_class_empty_on_failure [of "Inr (Some Map.empty)" "\<lambda>b::nat. Inr []" 5 Included]
        min_class_empty_on_failure
          [of "Inr (Some [''result'' \<mapsto> 0])" "\<lambda>b::nat. Inl ValueError" 5 Included]
  by simp

text \<open>
  A node whose class name is none of the four makes the filter raise \<^verbatim>\<open>KeyError\<close>, and
  the function returns the empty list then, too.
\<close>

lemma min_class_unknown_class_name:
  assumes "fetch_and_decode list_from_vec_u8 fetched = Inr nodes"
    and "n \<in> set nodes"
    and "subnet_node_class_to_enum (classification_node_class n) = Inl KeyError"
  shows "get_min_class_subnet_nodes_formatted list_from_vec_u8 fetched subnet_epoch min_class = []"
proof -
  have "min_class_comprehension nodes subnet_epoch min_class = Inl KeyError"
    using assms(2,3)
    by (induction nodes) (auto simp add: subnet_node_class_to_enum_def split: sum.splits)
  with assms(1) show ?thesis
    by (simp add: get_min_class_subnet_nodes_formatted_def)
qed


end
